theory Spec2Isabelle
  imports Complex_Main "HOL-Library.AList"
begin

section \<open>Cache lifetime policy (services/ai/helpers/caching.js)\<close>

text \<open>
  \<open>determineToolBasedCacheTTL(toolsUsed)\<close> walks four constant tables of tool names in
  order; \<open>table.some(tool => toolsUsed.includes(tool))\<close> is \<open>list_ex\<close> over the table
  with list membership in \<open>toolsUsed\<close>. The result is a number of milliseconds, written as
  the products the source writes. The \<open>console.log\<close> calls have no effect on the result.
\<close>

definition personalTools :: "string list" where
  "personalTools = [''make_reservation'', ''get_user_reservations'', ''cancel_reservation'']"

definition staticTools :: "string list" where
  "staticTools = [''get_popular_restaurants'', ''direct_answer'']"

definition searchTools :: "string list" where
  "searchTools = [''semantic_search_restaurants'']"

definition detailTools :: "string list" where
  "detailTools = [''get_restaurant_details'']"

definition determineToolBasedCacheTTL :: "string list \<Rightarrow> int" where
  "determineToolBasedCacheTTL toolsUsed =
     (if list_ex (\<lambda>tool. tool \<in> set toolsUsed) personalTools then 0
      else if list_ex (\<lambda>tool. tool \<in> set toolsUsed) staticTools then 7 * 24 * 60 * 60 * 1000
      else if list_ex (\<lambda>tool. tool \<in> set toolsUsed) searchTools then 24 * 60 * 60 * 1000
      else if list_ex (\<lambda>tool. tool \<in> set toolsUsed) detailTools then 6 * 60 * 60 * 1000
      else 12 * 60 * 60 * 1000)"

section \<open>Errors\<close>

text \<open>
  A JavaScript exception is a value: \<open>AppError code\<close> for the repository's own
  \<open>new AppError(code, message, status)\<close> (the code identifies it), \<open>Thrown what\<close> for
  anything else that can be thrown (a \<open>TypeError\<close>, a failure of a remote service). A
  function that can throw returns \<open>error + 'a\<close>, with \<open>Inl\<close> for the exception.
\<close>

datatype error = AppError string | Thrown string

section \<open>Semantic cache gateway (services/chat/data/chat-repository.js, domain/chat-service.js)\<close>

datatype search_strategy = Exact | Semantic

record search_params =
  search_prompt :: string
  search_strategies :: "search_strategy list"
  search_attributes :: "(string \<times> string) list option"

record cache_params =
  cache_prompt :: string
  cache_response :: "string option"
  cache_ttlMillis :: int
  cache_attributes :: "(string \<times> string) list option"

section \<open>Messages, tool calls and the turn state (agentic-restaurant-workflow/state.js)\<close>

record tool_call =
  call_name :: string
  call_args :: "(string \<times> string) list"
  call_id :: string

datatype message =
    SystemMessage string
  | HumanMessage string
  | AIMessage string "tool_call list"
  | ToolMessage string string

record ai_response =
  response_content :: string
  response_tool_calls :: "tool_call list option"

datatype cache_status = CacheHit | CacheMiss | CacheSkip | CacheSaved | CacheError

text \<open>
  \<open>RestaurantAgentState\<close>: \<open>sessionId\<close> and \<open>messages\<close> are required, the other channels
  are optional (\<open>None\<close> is JavaScript's \<open>undefined\<close>). \<open>'r\<close> is the type of a restaurant
  summary carried in \<open>foundRestaurants\<close>.
\<close>

record 'r agent_state =
  sessionId :: string
  messages :: "message list"
  result :: "string option"
  cacheStatus :: "cache_status option"
  toolsUsed :: "string list option"
  foundRestaurants :: "'r list option"

text \<open>
  A node returns an object with some of the channels; the graph writes each channel the
  object sets and keeps the others. The \<open>messages\<close> channel has the message reducer, which
  replaces messages by id and appends new ones; every node that returns \<open>messages\<close> returns
  \<open>[...state.messages, m]\<close>, for which the reducer's result is that very list.
\<close>

record 'r state_update =
  set_sessionId :: "string option"
  set_messages :: "message list option"
  set_result :: "string option"
  set_cacheStatus :: "cache_status option"
  set_toolsUsed :: "string list option"
  set_foundRestaurants :: "'r list option"

definition orElse :: "'a option \<Rightarrow> 'a \<Rightarrow> 'a" where
  "orElse x d = (case x of None \<Rightarrow> d | Some v \<Rightarrow> v)"

definition orKeep :: "'a option \<Rightarrow> 'a option \<Rightarrow> 'a option" where
  "orKeep x old = (case x of None \<Rightarrow> old | Some v \<Rightarrow> Some v)"

definition applyUpdate :: "'r agent_state \<Rightarrow> 'r state_update \<Rightarrow> 'r agent_state" where
  "applyUpdate s u =
     \<lparr> sessionId = orElse (set_sessionId u) (sessionId s),
       messages = orElse (set_messages u) (messages s),
       result = orKeep (set_result u) (result s),
       cacheStatus = orKeep (set_cacheStatus u) (cacheStatus s),
       toolsUsed = orKeep (set_toolsUsed u) (toolsUsed s),
       foundRestaurants = orKeep (set_foundRestaurants u) (foundRestaurants s) \<rparr>"

section \<open>The services a turn calls\<close>

text \<open>
  The cache service, the language model, the tools and the user store are outside the
  workflow. Each is a function of the request and of the state \<open>'w\<close> of the outside world,
  returning the reply (or the exception) and the new world; \<open>getOrCreateChatHistory\<close> and
  \<open>saveChatMessage\<close> are the transcript store of \<open>ChatRepository\<close>. \<open>parseToolResult\<close> stands for
  \<open>JSON.parse\<close> of a tool's reply followed by the two tests on \<open>type\<close> that pick the
  restaurants out of it; \<open>buildSystemPrompt\<close> for the profile lookup and the prompt
  template (neither throws: \<open>getUserProfile\<close> catches its own errors).
\<close>

record chat_message =
  role :: string
  chat_content :: "string option"

datatype 'r tool_reply = SearchReply "'r list" | DetailsReply 'r | OtherReply

record ('w, 'r) services =
  langCacheSearch :: "search_params \<Rightarrow> 'w \<Rightarrow> (error + string list) \<times> 'w"
  langCacheSet :: "cache_params \<Rightarrow> 'w \<Rightarrow> (error + unit) \<times> 'w"
  modelInvoke :: "message list \<Rightarrow> 'w \<Rightarrow> (error + ai_response) \<times> 'w"
  toolInvoke :: "string \<Rightarrow> (string \<times> string) list \<Rightarrow> 'w \<Rightarrow> (error + string) \<times> 'w"
  parseToolResult :: "string \<Rightarrow> 'r tool_reply"
  buildSystemPrompt :: "string \<Rightarrow> 'w \<Rightarrow> string \<times> 'w"
  getOrCreateChatHistory :: "string \<Rightarrow> string \<Rightarrow> 'w \<Rightarrow> (error + chat_message list) \<times> 'w"
  saveChatMessage :: "string \<Rightarrow> string \<Rightarrow> chat_message \<Rightarrow> 'w \<Rightarrow> (error + unit) \<times> 'w"

text \<open>
  Every call to a service is recorded, in order, beside the world: the record is what a
  statement such as "no cache store is performed" speaks about.
\<close>

datatype event =
    CacheSearch search_params
  | CacheSet cache_params
  | ModelInvoke "message list"
  | ToolInvoke string "(string \<times> string) list"

type_synonym 'w run = "'w \<times> event list"

definition callLangCacheSearch ::
  "('w, 'r) services \<Rightarrow> search_params \<Rightarrow> 'w run \<Rightarrow> (error + string list) \<times> 'w run" where
  "callLangCacheSearch env req run =
     (let (reply, w') = langCacheSearch env req (fst run)
      in (reply, (w', snd run @ [CacheSearch req])))"

definition callLangCacheSet ::
  "('w, 'r) services \<Rightarrow> cache_params \<Rightarrow> 'w run \<Rightarrow> (error + unit) \<times> 'w run" where
  "callLangCacheSet env req run =
     (let (reply, w') = langCacheSet env req (fst run)
      in (reply, (w', snd run @ [CacheSet req])))"

definition callModel ::
  "('w, 'r) services \<Rightarrow> message list \<Rightarrow> 'w run \<Rightarrow> (error + ai_response) \<times> 'w run" where
  "callModel env msgs run =
     (let (reply, w') = modelInvoke env msgs (fst run)
      in (reply, (w', snd run @ [ModelInvoke msgs])))"

definition callTool ::
  "('w, 'r) services \<Rightarrow> string \<Rightarrow> (string \<times> string) list \<Rightarrow> 'w run
     \<Rightarrow> (error + string) \<times> 'w run" where
  "callTool env name args run =
     (let (reply, w') = toolInvoke env name args (fst run)
      in (reply, (w', snd run @ [ToolInvoke name args])))"

section \<open>Cache lookup and store\<close>

text \<open>A string argument is truthy when it is given and not empty.\<close>

definition truthy :: "string option \<Rightarrow> bool" where
  "truthy x = (case x of None \<Rightarrow> False | Some v \<Rightarrow> v \<noteq> [])"

text \<open>
  \<open>findFromSemanticCache(query, sessionId)\<close>: the reply's \<open>data\<close> is the list of the
  responses found; \<open>result.data?.[0]?.response || null\<close> is the first one unless it is
  missing or empty.
\<close>

definition findFromSemanticCache ::
  "('w, 'r) services \<Rightarrow> string \<Rightarrow> string option \<Rightarrow> 'w run \<Rightarrow> (error + string option) \<times> 'w run" where
  "findFromSemanticCache env query sid run =
     (let searchParams =
            \<lparr> search_prompt = query,
              search_strategies = [Exact, Semantic],
              search_attributes =
                (if truthy sid then Some [(''sessionId'', the sid)] else None) \<rparr>;
          (reply, run') = callLangCacheSearch env searchParams run
      in case reply of
           Inl e \<Rightarrow> (Inl e, run')
         | Inr found \<Rightarrow>
             (Inr (case found of [] \<Rightarrow> None
                   | r # _ \<Rightarrow> if r = [] then None else Some r), run'))"

definition checkSemanticCache ::
  "('w, 'r) services \<Rightarrow> string \<Rightarrow> string option \<Rightarrow> 'w run \<Rightarrow> (error + string option) \<times> 'w run" where
  "checkSemanticCache env query sid run = findFromSemanticCache env query sid run"

definition saveResponseInSemanticCache ::
  "('w, 'r) services \<Rightarrow> string \<Rightarrow> string option \<Rightarrow> int \<Rightarrow> string option \<Rightarrow> 'w run
     \<Rightarrow> (error + unit) \<times> 'w run" where
  "saveResponseInSemanticCache env query aiReplyMessage ttlMillis sid run =
     (let cacheParams =
            \<lparr> cache_prompt = query,
              cache_response = aiReplyMessage,
              cache_ttlMillis = ttlMillis,
              cache_attributes =
                (if truthy sid then Some [(''sessionId'', the sid)] else None) \<rparr>
      in callLangCacheSet env cacheParams run)"

text \<open>
  \<open>saveToSemanticCache\<close> returns \<open>{success: true, ttlDays, message}\<close>; the model keeps
  \<open>ttlDays = Math.round(ttlMillis / (24 * 60 * 60 * 1000))\<close>, rounding half up.
\<close>

definition saveToSemanticCache ::
  "('w, 'r) services \<Rightarrow> string \<Rightarrow> string option \<Rightarrow> int \<Rightarrow> string option \<Rightarrow> 'w run
     \<Rightarrow> (error + int) \<times> 'w run" where
  "saveToSemanticCache env query response ttlMillis sid run =
     (let (reply, run') = saveResponseInSemanticCache env query response ttlMillis sid run
      in case reply of
           Inl e \<Rightarrow> (Inl e, run')
         | Inr _ \<Rightarrow>
             (Inr ((2 * ttlMillis + 24 * 60 * 60 * 1000) div (2 * (24 * 60 * 60 * 1000))), run'))"

section \<open>Node 1: the cache check (agentic-restaurant-workflow/nodes.js)\<close>

fun getType :: "message \<Rightarrow> string" where
  "getType (SystemMessage c) = ''system''"
| "getType (HumanMessage c) = ''human''"
| "getType (AIMessage c calls) = ''ai''"
| "getType (ToolMessage c i) = ''tool''"

fun content :: "message \<Rightarrow> string" where
  "content (SystemMessage c) = c"
| "content (HumanMessage c) = c"
| "content (AIMessage c calls) = c"
| "content (ToolMessage c i) = c"

text \<open>
  \<open>state.messages.findLast(m => m.getType() === "human")\<close>, then
  \<open>lastUserMessage?.content || ""\<close>.
\<close>

definition lastUserQuery :: "message list \<Rightarrow> string" where
  "lastUserQuery msgs =
     (case find (\<lambda>m. getType m = ''human'') (rev msgs) of
        None \<Rightarrow> []
      | Some m \<Rightarrow> content m)"

definition missUpdate :: "'r agent_state \<Rightarrow> 'r state_update" where
  "missUpdate state =
     \<lparr> set_sessionId = Some (sessionId state), set_messages = None, set_result = None,
       set_cacheStatus = Some CacheMiss, set_toolsUsed = None, set_foundRestaurants = None \<rparr>"

text \<open>
  The lookup is \<open>checkSemanticCache(userQuery)\<close>: no second argument. The \<open>catch\<close> answers
  a miss.
\<close>

definition queryCacheCheck ::
  "('w, 'r) services \<Rightarrow> 'r agent_state \<Rightarrow> 'w run \<Rightarrow> 'r state_update \<times> 'w run" where
  "queryCacheCheck env state run =
     (let userQuery = lastUserQuery (messages state);
          (reply, run') = checkSemanticCache env userQuery None run
      in case reply of
           Inr cachedResult \<Rightarrow>
             if truthy cachedResult then
               (\<lparr> set_sessionId = Some (sessionId state),
                  set_messages = Some (messages state @ [AIMessage (the cachedResult) []]),
                  set_result = cachedResult,
                  set_cacheStatus = Some CacheHit,
                  set_toolsUsed = None, set_foundRestaurants = None \<rparr>, run')
             else (missUpdate state, run')
         | Inl e \<Rightarrow> (missUpdate state, run'))"

section \<open>Node 2: the agent and its tool loop\<close>

definition restaurantTools :: "string list" where
  "restaurantTools =
     [''semantic_search_restaurants'', ''get_restaurant_details'', ''get_popular_restaurants'',
      ''make_reservation'', ''get_user_reservations'', ''cancel_reservation'', ''direct_answer'']"

definition unknownToolResult :: string where
  \<open>unknownToolResult = ''{"type":"error","success":false,"error":"Unknown tool requested"}''\<close>

definition agentApology :: string where
  "agentApology = ''I apologize, but I'm having trouble with your restaurant request right now. Please try asking about restaurant recommendations, making reservations, or general dining questions!''"

text \<open>The variables of the loop: \<open>currentMessages\<close>, \<open>toolsUsed\<close>, \<open>foundRestaurants\<close>.\<close>

record ('w, 'r) loop_state =
  currentMessages :: "message list"
  loopToolsUsed :: "string list"
  loopFoundRestaurants :: "'r list"
  loopRun :: "'w run"

text \<open>
  The loop is left either by its \<open>return\<close> (the content of the last response, the tools
  used and the restaurants found) or by an exception that the \<open>catch\<close> around it handles.
\<close>

datatype ('w, 'r) loop_exit =
    Returned string "string list" "'r list" "'w run"
  | Caught error "'w run"

text \<open>One pass of \<open>for (const toolCall of response.tool_calls)\<close>.\<close>

definition invokeToolCall ::
  "('w, 'r) services \<Rightarrow> string \<Rightarrow> tool_call \<Rightarrow> ('w, 'r) loop_state
     \<Rightarrow> (error \<times> 'w run) + ('w, 'r) loop_state" where
  "invokeToolCall env sid toolCall st =
     (let used = loopToolsUsed st @ [call_name toolCall]
      in if call_name toolCall \<in> set restaurantTools then
           (let toolArgs =
                  (if call_name toolCall \<in> set [''make_reservation'', ''get_user_reservations'']
                   then AList.update ''sessionId'' sid (call_args toolCall)
                   else call_args toolCall);
                (reply, run') = callTool env (call_name toolCall) toolArgs (loopRun st)
            in case reply of
                 Inl e \<Rightarrow> Inl (e, run')
               | Inr toolResult \<Rightarrow>
                   Inr \<lparr> currentMessages =
                           currentMessages st @ [ToolMessage toolResult (call_id toolCall)],
                         loopToolsUsed = used,
                         loopFoundRestaurants =
                           (case parseToolResult env toolResult of
                              SearchReply rs \<Rightarrow> rs
                            | DetailsReply r \<Rightarrow> [r]
                            | OtherReply \<Rightarrow> loopFoundRestaurants st),
                         loopRun = run' \<rparr>)
         else
           Inr \<lparr> currentMessages =
                   currentMessages st @ [ToolMessage unknownToolResult (call_id toolCall)],
                 loopToolsUsed = used,
                 loopFoundRestaurants = loopFoundRestaurants st,
                 loopRun = loopRun st \<rparr>)"

fun runToolCalls ::
  "('w, 'r) services \<Rightarrow> string \<Rightarrow> tool_call list \<Rightarrow> ('w, 'r) loop_state
     \<Rightarrow> (error \<times> 'w run) + ('w, 'r) loop_state" where
  "runToolCalls env sid [] st = Inr st"
| "runToolCalls env sid (toolCall # rest) st =
     (case invokeToolCall env sid toolCall st of
        Inl failure \<Rightarrow> Inl failure
      | Inr st' \<Rightarrow> runToolCalls env sid rest st')"

text \<open>\<open>!response.tool_calls || response.tool_calls.length === 0\<close>\<close>

definition noToolCalls :: "ai_response \<Rightarrow> bool" where
  "noToolCalls response =
     (case response_tool_calls response of None \<Rightarrow> True | Some calls \<Rightarrow> calls = [])"

text \<open>
  One iteration of \<open>while (true)\<close>: \<open>Inl\<close> when the iteration leaves the loop, \<open>Inr\<close> with
  the variables for the next iteration otherwise.
\<close>

definition agentStep ::
  "('w, 'r) services \<Rightarrow> string \<Rightarrow> ('w, 'r) loop_state
     \<Rightarrow> ('w, 'r) loop_exit + ('w, 'r) loop_state" where
  "agentStep env sid st =
     (let (reply, run') = callModel env (currentMessages st) (loopRun st)
      in case reply of
           Inl e \<Rightarrow> Inl (Caught e run')
         | Inr response \<Rightarrow>
             (let pushed = currentMessages st
                    @ [AIMessage (response_content response)
                         (orElse (response_tool_calls response) [])]
              in if noToolCalls response then
                   Inl (Returned (response_content response) (loopToolsUsed st)
                          (loopFoundRestaurants st) run')
                 else
                   (case runToolCalls env sid (orElse (response_tool_calls response) [])
                           (st\<lparr> currentMessages := pushed, loopRun := run' \<rparr>) of
                      Inl (e, run'') \<Rightarrow> Inl (Caught e run'')
                    | Inr st' \<Rightarrow> Inr st')))"

text \<open>
  \<open>while (true)\<close> has no bound, so the loop is a partial function: \<open>None\<close> is a loop
  that never ends.
\<close>

partial_function (option) agentLoop ::
  "('w, 'r) services \<Rightarrow> string \<Rightarrow> ('w, 'r) loop_state \<Rightarrow> ('w, 'r) loop_exit option" where
  "agentLoop env sid st =
     (case agentStep env sid st of
        Inl left \<Rightarrow> Some left
      | Inr st' \<Rightarrow> agentLoop env sid st')"

fun agentOutcome :: "'r agent_state \<Rightarrow> ('w, 'r) loop_exit \<Rightarrow> 'r state_update \<times> 'w run" where
  "agentOutcome state (Returned text used found run) =
     (\<lparr> set_sessionId = Some (sessionId state),
        set_messages = Some (messages state @ [AIMessage text []]),
        set_result = Some text,
        set_cacheStatus = None,
        set_toolsUsed = Some (if length used > 0 then used else [''none'']),
        set_foundRestaurants = Some found \<rparr>, run)"
| "agentOutcome state (Caught e run) =
     (\<lparr> set_sessionId = Some (sessionId state),
        set_messages = Some (messages state @ [AIMessage agentApology []]),
        set_result = Some agentApology,
        set_cacheStatus = None,
        set_toolsUsed = Some [''error''],
        set_foundRestaurants = None \<rparr>, run)"

definition restaurantDiscoveryAgent ::
  "('w, 'r) services \<Rightarrow> 'r agent_state \<Rightarrow> 'w run \<Rightarrow> ('r state_update \<times> 'w run) option" where
  "restaurantDiscoveryAgent env state run =
     (let (systemPrompt, w') = buildSystemPrompt env (sessionId state) (fst run);
          st = \<lparr> currentMessages = SystemMessage systemPrompt # messages state,
                 loopToolsUsed = [], loopFoundRestaurants = [], loopRun = (w', snd run) \<rparr>
      in case agentLoop env (sessionId state) st of
           None \<Rightarrow> None
         | Some left \<Rightarrow> Some (agentOutcome state left))"

text \<open>
  The variables the loop starts with: \<open>currentMessages\<close> is the system prompt followed by
  \<open>state.messages\<close>, \<open>toolsUsed\<close> and \<open>foundRestaurants\<close> are empty.
\<close>

definition agentStart :: "('w, 'r) services \<Rightarrow> 'r agent_state \<Rightarrow> 'w run \<Rightarrow> ('w, 'r) loop_state" where
  "agentStart env state run =
     \<lparr> currentMessages =
         SystemMessage (fst (buildSystemPrompt env (sessionId state) (fst run))) # messages state,
       loopToolsUsed = [], loopFoundRestaurants = [],
       loopRun = (snd (buildSystemPrompt env (sessionId state) (fst run)), snd run) \<rparr>"

section \<open>Node 3: the cache write\<close>

definition processWorkOutputWithCaching ::
  "('w, 'r) services \<Rightarrow> 'r agent_state \<Rightarrow> 'w run \<Rightarrow> 'r state_update \<times> 'w run" where
  "processWorkOutputWithCaching env state run =
     (let userQuery = lastUserQuery (messages state);
          agentResponse = result state
      in if (case toolsUsed state of None \<Rightarrow> False | Some used \<Rightarrow> ''error'' \<in> set used) then
           (\<lparr> set_sessionId = Some (sessionId state), set_messages = None,
              set_result = agentResponse, set_cacheStatus = Some CacheSkip,
              set_toolsUsed = toolsUsed state,
              set_foundRestaurants = foundRestaurants state \<rparr>, run)
         else
           (let cacheTTL = determineToolBasedCacheTTL (orElse (toolsUsed state) [])
            in if cacheTTL = 0 then
                 (\<lparr> set_sessionId = Some (sessionId state), set_messages = None,
                    set_result = agentResponse, set_cacheStatus = Some CacheSkip,
                    set_toolsUsed = None, set_foundRestaurants = None \<rparr>, run)
               else
                 (let (reply, run') =
                        saveToSemanticCache env userQuery agentResponse cacheTTL
                          (Some (sessionId state)) run
                  in case reply of
                       Inr _ \<Rightarrow>
                         (\<lparr> set_sessionId = Some (sessionId state), set_messages = None,
                            set_result = agentResponse, set_cacheStatus = Some CacheSaved,
                            set_toolsUsed = toolsUsed state,
                            set_foundRestaurants = foundRestaurants state \<rparr>, run')
                     | Inl e \<Rightarrow>
                         (\<lparr> set_sessionId = Some (sessionId state), set_messages = None,
                            set_result = agentResponse, set_cacheStatus = Some CacheError,
                            set_toolsUsed = toolsUsed state,
                            set_foundRestaurants = foundRestaurants state \<rparr>, run'))))"

section \<open>The workflow graph (agentic-restaurant-workflow/index.js)\<close>

text \<open>
  \<open>START \<rightarrow> query_cache_check\<close>; then \<open>END\<close> when \<open>state.cacheStatus === "hit"\<close>, else
  \<open>restaurant_discovery_agent \<rightarrow> process_work_output_with_caching \<rightarrow> END\<close>. The result is the
  final state and the run; \<open>None\<close> when the agent's loop never ends.
\<close>

definition agentThenWrite ::
  "('w, 'r) services \<Rightarrow> 'r agent_state \<Rightarrow> 'w run \<Rightarrow> ('r agent_state \<times> 'w run) option" where
  "agentThenWrite env state run =
     (case restaurantDiscoveryAgent env state run of
        None \<Rightarrow> None
      | Some (answered, run2) \<Rightarrow>
          (let state2 = applyUpdate state answered;
               (written, run3) = processWorkOutputWithCaching env state2 run2
           in Some (applyUpdate state2 written, run3)))"

definition restaurantWorkflow ::
  "('w, 'r) services \<Rightarrow> 'r agent_state \<Rightarrow> 'w run \<Rightarrow> ('r agent_state \<times> 'w run) option" where
  "restaurantWorkflow env state run =
     (let (checked, run1) = queryCacheCheck env state run;
          state1 = applyUpdate state checked
      in if cacheStatus state1 = Some CacheHit then Some (state1, run1)
         else agentThenWrite env state1 run1)"

section \<open>A turn: runRestaurantAgentWorkflow and POST /chat (index.js, chat-service.js, chat-routes.js)\<close>

record query_result =
  isCachedResponse :: bool
  reply_content :: "string option"

definition fallbackReply :: query_result where
  "fallbackReply =
     \<lparr> isCachedResponse = False,
       reply_content = Some ''I apologize, but I'm having trouble processing your restaurant request right now. Please try asking about restaurant recommendations, making reservations, or general dining questions.'' \<rparr>"

text \<open>The state \<open>workflowGraph.invoke({sessionId, messages})\<close> starts from.\<close>

definition initialState :: "string \<Rightarrow> message list \<Rightarrow> 'r agent_state" where
  "initialState sid msgs =
     \<lparr> sessionId = sid, messages = msgs, result = None, cacheStatus = None,
       toolsUsed = None, foundRestaurants = None \<rparr>"

text \<open>
  \<open>msg.role === "user" ? new HumanMessage(msg.content) : new AIMessage(msg.content)\<close>. A
  stored entry without content (an assistant entry saved with an \<open>undefined\<close> reply) makes
  the constructor read a field of \<open>undefined\<close>: a \<open>TypeError\<close>. \<open>toMessages\<close> is
  \<open>rawHistory.map\<close> of it, which stops at the first exception.
\<close>

definition toMessage :: "chat_message \<Rightarrow> error + message" where
  "toMessage msg =
     (case chat_content msg of
        None \<Rightarrow> Inl (Thrown ''TypeError'')
      | Some c \<Rightarrow> Inr (if role msg = ''user'' then HumanMessage c else AIMessage c []))"

fun toMessages :: "chat_message list \<Rightarrow> error + message list" where
  "toMessages [] = Inr []"
| "toMessages (msg # rest) =
     (case toMessage msg of
        Inl e \<Rightarrow> Inl e
      | Inr m \<Rightarrow> (case toMessages rest of Inl e \<Rightarrow> Inl e | Inr ms \<Rightarrow> Inr (m # ms)))"

text \<open>
  The whole body is inside \<open>try\<close>; the \<open>catch\<close> answers \<open>fallbackReply\<close>.
  \<open>result.result || result.output\<close>: the state has no \<open>output\<close> channel, so the reply is
  the result when that is a non-empty string and \<open>undefined\<close> otherwise.
\<close>

definition runRestaurantAgentWorkflow ::
  "('w, 'r) services \<Rightarrow> string \<Rightarrow> string \<Rightarrow> string \<Rightarrow> bool \<Rightarrow> 'w run
     \<Rightarrow> (query_result \<times> 'w run) option" where
  "runRestaurantAgentWorkflow env sid chatId message useSmartRecall run =
     (let (history, w1) = getOrCreateChatHistory env sid chatId (fst run)
      in case history of
           Inl e \<Rightarrow> Some (fallbackReply, (w1, snd run))
         | Inr rawHistory \<Rightarrow>
             (case toMessages rawHistory of
                Inl e \<Rightarrow> Some (fallbackReply, (w1, snd run))
              | Inr history \<Rightarrow>
             (let msgs = history @ [HumanMessage message]
              in case restaurantWorkflow env (initialState sid msgs) (w1, snd run) of
                   None \<Rightarrow> None
                 | Some (final, run2) \<Rightarrow>
                     (let finalReply = (if truthy (result final) then result final else None);
                          queryResult =
                            \<lparr> isCachedResponse = (cacheStatus final = Some CacheHit),
                              reply_content = finalReply \<rparr>;
                          (saved1, w3) =
                            saveChatMessage env sid chatId
                              \<lparr> role = ''user'', chat_content = Some message \<rparr> (fst run2)
                      in case saved1 of
                           Inl e \<Rightarrow> Some (fallbackReply, (w3, snd run2))
                         | Inr _ \<Rightarrow>
                             (let (saved2, w4) =
                                    saveChatMessage env sid chatId
                                      \<lparr> role = ''assistant'', chat_content = finalReply \<rparr> w3
                              in case saved2 of
                                   Inl e \<Rightarrow> Some (fallbackReply, (w4, snd run2))
                                 | Inr _ \<Rightarrow> Some (queryResult, (w4, snd run2)))))))"

definition processRestaurantInquiry ::
  "('w, 'r) services \<Rightarrow> string \<Rightarrow> string \<Rightarrow> string \<Rightarrow> bool \<Rightarrow> 'w run
     \<Rightarrow> (query_result \<times> 'w run) option" where
  "processRestaurantInquiry env sid chatId message useSmartRecall run =
     runRestaurantAgentWorkflow env sid chatId message useSmartRecall run"

datatype chat_reply = BadRequest string | ChatReply query_result

text \<open>
  \<open>router.post('/chat')\<close>: a request without a message or a session id is answered 400 and
  no turn starts; \<open>chatId || 'default'\<close>; \<open>useSmartRecall || false\<close>.
\<close>

definition postChat ::
  "('w, 'r) services \<Rightarrow> string option \<Rightarrow> string option \<Rightarrow> string option \<Rightarrow> bool option
     \<Rightarrow> 'w run \<Rightarrow> (chat_reply \<times> 'w run) option" where
  "postChat env message sid chatId useSmartRecall run =
     (if \<not> truthy message \<or> \<not> truthy sid then
        Some (BadRequest ''Missing required fields: message and sessionId are required'', run)
      else
        (let effectiveChatId = (if truthy chatId then the chatId else ''default'')
         in case processRestaurantInquiry env (the sid) effectiveChatId (the message)
                   (orElse useSmartRecall False) run of
              None \<Rightarrow> None
            | Some (reply, run') \<Rightarrow> Some (ChatReply reply, run')))"

section \<open>Reading the record of calls\<close>

definition isCacheEvent :: "event \<Rightarrow> bool" where
  "isCacheEvent e = (case e of CacheSearch q \<Rightarrow> True | CacheSet p \<Rightarrow> True | _ \<Rightarrow> False)"

text \<open>The calls to the cache service, in order.\<close>

definition cacheTraffic :: "event list \<Rightarrow> event list" where
  "cacheTraffic evs = filter isCacheEvent evs"

definition modelCalls :: "event list \<Rightarrow> message list list" where
  "modelCalls evs = concat (map (\<lambda>e. case e of ModelInvoke m \<Rightarrow> [m] | _ \<Rightarrow> []) evs)"

section \<open>The loop, iteration by iteration\<close>

text \<open>
  \<open>agentIter env sid k st\<close> runs at most \<open>k\<close> iterations of the loop from \<open>st\<close>: \<open>Inl\<close>
  when one of them left the loop, \<open>Inr\<close> with the variables after \<open>k\<close> iterations otherwise.
\<close>

fun agentIter ::
  "('w, 'r) services \<Rightarrow> string \<Rightarrow> nat \<Rightarrow> ('w, 'r) loop_state
     \<Rightarrow> ('w, 'r) loop_exit + ('w, 'r) loop_state" where
  "agentIter env sid 0 st = Inr st"
| "agentIter env sid (Suc k) st =
     (case agentStep env sid st of
        Inl left \<Rightarrow> Inl left
      | Inr st' \<Rightarrow> agentIter env sid k st')"

fun exitRun :: "('w, 'r) loop_exit \<Rightarrow> 'w run" where
  "exitRun (Returned text used found run) = run"
| "exitRun (Caught e run) = run"

section \<open>Scripted services, for concrete runs\<close>

text \<open>
  Services for running the workflow on concrete inputs: the world is the number of model
  invocations so far, the model answers its \<open>i\<close>-th invocation with \<open>script i\<close>, the cache
  answers every lookup with \<open>cached\<close> and accepts every store, every tool answers \<open>{}\<close>.
\<close>

definition scriptedServices ::
  "(error + string list) \<Rightarrow> (nat \<Rightarrow> error + ai_response) \<Rightarrow> (nat, string) services" where
  "scriptedServices cached script =
     \<lparr> langCacheSearch = (\<lambda>req w. (cached, w)),
       langCacheSet = (\<lambda>req w. (Inr (), w)),
       modelInvoke = (\<lambda>msgs w. (script w, Suc w)),
       toolInvoke = (\<lambda>name args w. (Inr ''{}'', w)),
       parseToolResult = (\<lambda>reply. OtherReply),
       buildSystemPrompt = (\<lambda>sid w. (''You are a helpful restaurant discovery assistant.'', w)),
       getOrCreateChatHistory = (\<lambda>sid chatId w. (Inr [], w)),
       saveChatMessage = (\<lambda>sid chatId msg w. (Inr (), w)) \<rparr>"

definition callsTool :: "string \<Rightarrow> ai_response" where
  "callsTool name =
     \<lparr> response_content = [],
       response_tool_calls = Some [\<lparr> call_name = name, call_args = [], call_id = ''call'' \<rparr>] \<rparr>"

definition answers :: "string \<Rightarrow> ai_response" where
  "answers text = \<lparr> response_content = text, response_tool_calls = Some [] \<rparr>"

text \<open>The model that asks for a tool \<open>n\<close> times and then answers.\<close>

definition afterCalls :: "nat \<Rightarrow> string \<Rightarrow> string \<Rightarrow> nat \<Rightarrow> error + ai_response" where
  "afterCalls n name text i = (if i < n then Inr (callsTool name) else Inr (answers text))"

section \<open>JavaScript numbers\<close>

text \<open>
  A JavaScript number that a claim depends on is a rational or \<open>NaN\<close>. A comparison with
  \<open>NaN\<close> is false, \<open>Math.max\<close> and \<open>Math.min\<close> answer \<open>NaN\<close> when an argument is
  \<open>NaN\<close>, and a number is truthy when it is neither 0 nor \<open>NaN\<close>.
\<close>

datatype jsnum = Num rat | NaN

fun numTruthy :: "jsnum \<Rightarrow> bool" where
  "numTruthy (Num x) = (x \<noteq> 0)"
| "numTruthy NaN = False"

fun mathMax :: "jsnum \<Rightarrow> jsnum \<Rightarrow> jsnum" where
  "mathMax (Num x) (Num y) = Num (max x y)"
| "mathMax a b = NaN"

fun mathMin :: "jsnum \<Rightarrow> jsnum \<Rightarrow> jsnum" where
  "mathMin (Num x) (Num y) = Num (min x y)"
| "mathMin a b = NaN"

fun times :: "jsnum \<Rightarrow> jsnum \<Rightarrow> jsnum" where
  "times (Num x) (Num y) = Num (x * y)"
| "times a b = NaN"

fun numLess :: "jsnum \<Rightarrow> jsnum \<Rightarrow> bool" where
  "numLess (Num x) (Num y) = (x < y)"
| "numLess a b = False"

fun numLessEq :: "jsnum \<Rightarrow> jsnum \<Rightarrow> bool" where
  "numLessEq (Num x) (Num y) = (x \<le> y)"
| "numLessEq a b = False"

section \<open>The stores behind the reservation service\<close>

text \<open>
  A restaurant document as the index returns it, with the fields of the data model. The
  numeric fields are the numbers their stored text denotes.
\<close>

record restaurant =
  rest_id :: string
  rest_name :: string
  rest_cuisine :: string
  rest_address :: string
  rest_city :: string
  rest_locality :: string
  rest_type :: string
  rest_priceFor2 :: rat
  rest_rating :: rat
  rest_reviewCount :: "rat option"

record profile =
  profile_name :: "string option"
  profile_email :: "string option"
  profile_phone :: "string option"

text \<open>
  A reservation as \<open>ReservationRepository.createReservation\<close> builds it and as the hash
  \<open>reservations:<id>\<close> holds it (the hash keeps every field as text; the model keeps the
  fields). \<open>cancelledAt\<close> is set only by the first \<open>cancelReservation\<close>.
\<close>

record reservation =
  res_id :: string
  res_sessionId :: string
  res_restaurantId :: string
  res_date :: string
  res_time :: string
  res_guests :: jsnum
  res_customerName :: string
  res_customerPhone :: string
  res_customerEmail :: "string option"
  res_specialRequests :: "string option"
  res_status :: string
  res_createdAt :: string
  res_updatedAt :: string
  res_cancelledAt :: "string option"

text \<open>
  The Redis database: the hashes \<open>reservations:<id>\<close>, the sets
  \<open>users:<sessionId>:reservations\<close>, the documents \<open>restaurants:<id>\<close> and the profiles
  \<open>users:<sessionId>\<close>. \<open>redisUp\<close> says whether the client's calls succeed; when it is
  false every call throws.
\<close>

record database =
  redisUp :: bool
  reservationHashes :: "string \<rightharpoonup> reservation"
  sessionReservations :: "string \<Rightarrow> string set"
  restaurantDocs :: "string \<rightharpoonup> restaurant"
  userProfiles :: "string \<rightharpoonup> profile"

section \<open>User and restaurant lookups (users/domain/user-service.js, restaurants)\<close>

text \<open>\<open>getUserProfile\<close> catches every error and answers \<open>null\<close>.\<close>

definition getUserProfile :: "database \<Rightarrow> string \<Rightarrow> profile option" where
  "getUserProfile db sid = (if redisUp db then userProfiles db sid else None)"

record contact_details =
  contact_name :: string
  contact_email :: string
  contact_phone :: string

definition getUserContactDetails :: "database \<Rightarrow> string \<Rightarrow> contact_details option" where
  "getUserContactDetails db sid =
     (case getUserProfile db sid of
        None \<Rightarrow> None
      | Some p \<Rightarrow>
          Some \<lparr> contact_name = (if truthy (profile_name p) then the (profile_name p) else ''Guest''),
                 contact_email = (if truthy (profile_email p) then the (profile_email p) else []),
                 contact_phone = (if truthy (profile_phone p) then the (profile_phone p) else []) \<rparr>)"

text \<open>\<open>RestaurantRepository.getRestaurantById\<close>, then \<open>RestaurantService.getRestaurantById\<close>.\<close>

definition repoGetRestaurantById :: "database \<Rightarrow> string \<Rightarrow> error + restaurant option" where
  "repoGetRestaurantById db restaurantId =
     (if redisUp db then Inr (restaurantDocs db restaurantId)
      else Inl (AppError ''RESTAURANT_FETCH_ERROR''))"

definition getRestaurantById :: "database \<Rightarrow> string \<Rightarrow> error + restaurant" where
  "getRestaurantById db restaurantId =
     (if restaurantId = [] then Inl (AppError ''INVALID_RESTAURANT_ID'')
      else case repoGetRestaurantById db restaurantId of
             Inl e \<Rightarrow> Inl e
           | Inr None \<Rightarrow> Inl (AppError ''RESTAURANT_NOT_FOUND'')
           | Inr (Some restaurant) \<Rightarrow> Inr restaurant)"

section \<open>Reservation repository (reservations/data/reservation-repository.js)\<close>

text \<open>The data \<open>ReservationService.createReservation\<close> hands to the repository.\<close>

record reservation_data =
  data_sessionId :: string
  data_restaurantId :: string
  data_date :: string
  data_time :: string
  data_guests :: jsnum
  data_customerName :: string
  data_customerPhone :: string
  data_customerEmail :: "string option"
  data_specialRequests :: "string option"

text \<open>
  \<open>createReservation\<close>: \<open>hSet\<close> of the hash, then \<open>sAdd\<close> to the session's set. The new
  id (\<open>_generateReservationId\<close>) and the time (\<open>new Date().toISOString()\<close>) are arguments.
\<close>

definition repoCreateReservation ::
  "string \<Rightarrow> string \<Rightarrow> reservation_data \<Rightarrow> database \<Rightarrow> (error + reservation) \<times> database" where
  "repoCreateReservation reservationId now reservationData db =
     (if \<not> redisUp db then (Inl (AppError ''RESERVATION_CREATE_ERROR''), db)
      else
        (let reservation =
               \<lparr> res_id = reservationId,
                 res_sessionId = data_sessionId reservationData,
                 res_restaurantId = data_restaurantId reservationData,
                 res_date = data_date reservationData,
                 res_time = data_time reservationData,
                 res_guests = data_guests reservationData,
                 res_customerName = data_customerName reservationData,
                 res_customerPhone = data_customerPhone reservationData,
                 res_customerEmail = data_customerEmail reservationData,
                 res_specialRequests = data_specialRequests reservationData,
                 res_status = ''confirmed'',
                 res_createdAt = now, res_updatedAt = now, res_cancelledAt = None \<rparr>
         in (Inr reservation,
             db\<lparr> reservationHashes := (reservationHashes db)(reservationId \<mapsto> reservation),
                 sessionReservations := (sessionReservations db)
                   (data_sessionId reservationData :=
                      insert reservationId (sessionReservations db (data_sessionId reservationData))) \<rparr>)))"

definition repoGetReservationById :: "database \<Rightarrow> string \<Rightarrow> error + reservation option" where
  "repoGetReservationById db reservationId =
     (if redisUp db then Inr (reservationHashes db reservationId)
      else Inl (AppError ''RESERVATION_FETCH_ERROR''))"

definition updateReservation ::
  "string \<Rightarrow> string \<Rightarrow> reservation \<Rightarrow> database \<Rightarrow> (error + reservation) \<times> database" where
  "updateReservation now reservationId reservationData db =
     (if \<not> redisUp db then (Inl (AppError ''RESERVATION_UPDATE_ERROR''), db)
      else
        (let flatData = reservationData\<lparr> res_updatedAt := now \<rparr>
         in (Inr flatData,
             db\<lparr> reservationHashes := (reservationHashes db)(reservationId \<mapsto> flatData) \<rparr>)))"

text \<open>
  \<open>updateReservationStatus\<close>: the \<open>AppError\<close> thrown inside the \<open>try\<close> for a missing
  reservation is caught by the same function's \<open>catch\<close> and replaced.
\<close>

definition updateReservationStatus ::
  "string \<Rightarrow> string \<Rightarrow> string \<Rightarrow> database \<Rightarrow> (error + reservation) \<times> database" where
  "updateReservationStatus now reservationId status db =
     (case repoGetReservationById db reservationId of
        Inl e \<Rightarrow> (Inl (AppError ''RESERVATION_UPDATE_ERROR''), db)
      | Inr None \<Rightarrow> (Inl (AppError ''RESERVATION_UPDATE_ERROR''), db)
      | Inr (Some reservation) \<Rightarrow>
          (let updatedReservation = reservation\<lparr> res_status := status, res_updatedAt := now \<rparr>
           in (Inr updatedReservation,
               db\<lparr> reservationHashes :=
                     (reservationHashes db)(reservationId \<mapsto> updatedReservation) \<rparr>)))"

section \<open>Reservation service (reservations/domain/reservation-service.js)\<close>

definition isSpace :: "char \<Rightarrow> bool" where
  "isSpace c = (c \<in> set [CHR '' '', CHR 0x09, CHR 0x0A, CHR 0x0B, CHR 0x0C, CHR 0x0D])"

text \<open>\<open>String.prototype.trim\<close> on the white space of ASCII.\<close>

definition trim :: "string \<Rightarrow> string" where
  "trim str = rev (dropWhile isSpace (rev (dropWhile isSpace str)))"

record restaurant_summary =
  summary_id :: string
  summary_name :: string
  summary_cuisine :: string
  summary_address :: string
  summary_city :: string
  summary_locality :: string

definition summaryOf :: "restaurant \<Rightarrow> restaurant_summary" where
  "summaryOf r =
     \<lparr> summary_id = rest_id r, summary_name = rest_name r, summary_cuisine = rest_cuisine r,
       summary_address = rest_address r, summary_city = rest_city r,
       summary_locality = rest_locality r \<rparr>"

record reservation_request =
  req_sessionId :: string
  req_restaurantId :: string
  req_date :: string
  req_time :: string
  req_guests :: jsnum
  req_specialRequests :: "string option"

text \<open>
  \<open>createReservation\<close>, in the order of the source: the contact details (reading
  \<open>.name\<close> of \<open>null\<close> throws a \<open>TypeError\<close>), then the repository's
  \<open>createReservation\<close>, then \<open>getRestaurantById\<close> "for response". The result is the
  outcome and the database after the call.
\<close>

definition createReservation ::
  "string \<Rightarrow> string \<Rightarrow> reservation_request \<Rightarrow> database
     \<Rightarrow> (error + reservation \<times> restaurant_summary) \<times> database" where
  "createReservation newId now request db =
     (case getUserContactDetails db (req_sessionId request) of
        None \<Rightarrow> (Inl (Thrown ''TypeError''), db)
      | Some customerDetails \<Rightarrow>
          (let (created, db') =
                 repoCreateReservation newId now
                   \<lparr> data_sessionId = req_sessionId request,
                     data_restaurantId = req_restaurantId request,
                     data_date = req_date request,
                     data_time = req_time request,
                     data_guests = req_guests request,
                     data_customerName = trim (contact_name customerDetails),
                     data_customerPhone = trim (contact_phone customerDetails),
                     data_customerEmail =
                       (if contact_email customerDetails \<noteq> []
                        then Some (trim (contact_email customerDetails)) else None),
                     data_specialRequests =
                       (if truthy (req_specialRequests request)
                        then Some (trim (the (req_specialRequests request))) else None) \<rparr> db
           in case created of
                Inl e \<Rightarrow> (Inl e, db')
              | Inr reservation \<Rightarrow>
                  (case getRestaurantById db' (req_restaurantId request) of
                     Inl e \<Rightarrow> (Inl e, db')
                   | Inr restaurant \<Rightarrow> (Inr (reservation, summaryOf restaurant), db'))))"

definition getReservationById ::
  "database \<Rightarrow> string \<Rightarrow> error + reservation \<times> restaurant_summary" where
  "getReservationById db reservationId =
     (if reservationId = [] then Inl (AppError ''INVALID_RESERVATION_ID'')
      else case repoGetReservationById db reservationId of
             Inl e \<Rightarrow> Inl e
           | Inr None \<Rightarrow> Inl (AppError ''RESERVATION_NOT_FOUND'')
           | Inr (Some reservation) \<Rightarrow>
               (case getRestaurantById db (res_restaurantId reservation) of
                  Inl e \<Rightarrow> Inl e
                | Inr restaurant \<Rightarrow> Inr (reservation, summaryOf restaurant)))"

text \<open>
  The class body defines \<open>cancelReservation\<close> twice. The first definition
  (\<open>cancelReservation(reservationId, sessionId)\<close>) checks the owner, the status and the
  two-hour policy. \<open>toMillis\<close> is \<open>new Date(`${date} ${time}`)\<close> as milliseconds, \<open>None\<close>
  for an invalid date (whose comparisons are all false); \<open>nowMillis\<close> is \<open>new Date()\<close>.
\<close>

definition cancelReservationFirst ::
  "(string \<Rightarrow> int option) \<Rightarrow> int \<Rightarrow> string \<Rightarrow> string \<Rightarrow> string option \<Rightarrow> database
     \<Rightarrow> (error + reservation) \<times> database" where
  "cancelReservationFirst toMillis nowMillis now reservationId sid db =
     (if reservationId = [] \<or> \<not> truthy sid then (Inl (AppError ''INVALID_PARAMETERS''), db)
      else case repoGetReservationById db reservationId of
             Inl e \<Rightarrow> (Inl e, db)
           | Inr None \<Rightarrow> (Inl (AppError ''RESERVATION_NOT_FOUND''), db)
           | Inr (Some reservation) \<Rightarrow>
               if res_sessionId reservation \<noteq> the sid then
                 (Inl (AppError ''UNAUTHORIZED_CANCELLATION''), db)
               else if res_status reservation = ''cancelled'' then
                 (Inl (AppError ''ALREADY_CANCELLED''), db)
               else if res_status reservation = ''completed'' then
                 (Inl (AppError ''CANNOT_CANCEL_COMPLETED''), db)
               else if (case toMillis (res_date reservation @ '' '' @ res_time reservation) of
                          None \<Rightarrow> False
                        | Some reservationDateTime \<Rightarrow>
                            (of_int (reservationDateTime - nowMillis) :: rat)
                               / (1000 * 60 * 60) < 2) then
                 (Inl (AppError ''CANCELLATION_TOO_LATE''), db)
               else
                 (let cancelledReservation =
                        reservation\<lparr> res_status := ''cancelled'', res_cancelledAt := Some now,
                                     res_updatedAt := now \<rparr>
                  in case updateReservation now reservationId cancelledReservation db of
                       (Inl e, db') \<Rightarrow> (Inl e, db')
                     | (Inr _, db') \<Rightarrow> (Inr cancelledReservation, db')))"

text \<open>
  The second definition (\<open>cancelReservation(reservationId)\<close>) comes later in the class
  body, and in JavaScript the later of two methods with one name is the method of the
  class: this is what \<open>reservationService.cancelReservation\<close> runs, from the tool and from
  the route alike.
\<close>

definition cancelReservation ::
  "string \<Rightarrow> string \<Rightarrow> database \<Rightarrow> (error + reservation \<times> restaurant_summary) \<times> database" where
  "cancelReservation now reservationId db =
     (case getReservationById db reservationId of
        Inl e \<Rightarrow> (Inl e, db)
      | Inr (reservation, restaurant) \<Rightarrow>
          if res_status reservation = ''cancelled'' then (Inl (AppError ''ALREADY_CANCELLED''), db)
          else case updateReservationStatus now reservationId ''cancelled'' db of
                 (Inl e, db') \<Rightarrow> (Inl e, db')
               | (Inr cancelledReservation, db') \<Rightarrow> (Inr (cancelledReservation, restaurant), db'))"

section \<open>The restaurant index (restaurants/data/restaurant-repository.js)\<close>

text \<open>
  A call \<open>client.ft.search(index, query, options)\<close>, with the query kept in parts instead
  of as the text the repository concatenates: the free text (\<open>*\<close> for all documents), the
  filters \<open>@field:{tag}\<close>, \<open>@field:[lo hi]\<close> and \<open>@lngLat:[lon lat r km]\<close>, the clause
  \<open>=>[KNN k @embedding $query_vector AS score]\<close>, and the options \<open>GEOFILTER\<close>,
  \<open>SORTBY\<close>, \<open>LIMIT 0 size\<close> and \<open>RETURN\<close>. \<open>'v\<close> is the type of an embedding vector.
\<close>

datatype bound = Bound jsnum | PlusInf

datatype ft_filter =
    Tag string string
  | Range string bound bound
  | GeoRadius string jsnum jsnum jsnum

record 'v ft_query =
  q_text :: string
  q_filters :: "ft_filter list"
  q_knn :: "(jsnum \<times> 'v) option"
  q_geofilter :: "(jsnum \<times> jsnum \<times> jsnum) option"
  q_sortby :: "string option"
  q_limit :: jsnum
  q_return :: "string list"

text \<open>
  What the search tool calls outside the repository's code: the built-ins \<open>parseInt\<close> and
  \<open>parseFloat\<close>, the embedding service, and the search of the index. The last two depend
  on, and may change, the state \<open>'w\<close> of the outside world.
\<close>

record ('w, 'v) search_services =
  parseInt :: "string \<Rightarrow> jsnum"
  parseFloat :: "string \<Rightarrow> jsnum"
  generateEmbedding :: "string \<Rightarrow> 'w \<Rightarrow> (error + 'v) \<times> 'w"
  ftSearch :: "'v ft_query \<Rightarrow> 'w \<Rightarrow> (error + restaurant list) \<times> 'w"

text \<open>\<open>await\<close> of a call that may throw, followed by the rest of the function.\<close>

definition await ::
  "('w \<Rightarrow> (error + 'a) \<times> 'w) \<Rightarrow> ('a \<Rightarrow> 'w \<Rightarrow> (error + 'b) \<times> 'w) \<Rightarrow> 'w \<Rightarrow> (error + 'b) \<times> 'w" where
  "await call rest w = (case call w of (Inl e, w') \<Rightarrow> (Inl e, w') | (Inr x, w') \<Rightarrow> rest x w')"

definition resolve :: "'a \<Rightarrow> 'w \<Rightarrow> (error + 'a) \<times> 'w" where
  "resolve x w = (Inr x, w)"

definition throw :: "error \<Rightarrow> 'w \<Rightarrow> (error + 'a) \<times> 'w" where
  "throw e w = (Inl e, w)"

definition numOptTruthy :: "jsnum option \<Rightarrow> bool" where
  "numOptTruthy x = (case x of None \<Rightarrow> False | Some n \<Rightarrow> numTruthy n)"

definition tagFilter :: "string \<Rightarrow> string option \<Rightarrow> ft_filter list" where
  "tagFilter field v = (if truthy v then [Tag field (the v)] else [])"

record search_params_repo =
  sr_query :: string
  sr_cuisine :: "string option"
  sr_city :: "string option"
  sr_locality :: "string option"
  sr_type :: "string option"
  sr_maxPrice :: "jsnum option"
  sr_minRating :: "jsnum option"
  sr_limit :: jsnum

definition repoSearchRestaurants ::
  "('w, 'v) search_services \<Rightarrow> search_params_repo \<Rightarrow> 'w \<Rightarrow> (error + restaurant list) \<times> 'w" where
  "repoSearchRestaurants env params =
     (let searchQuery = (if sr_query params = [] then ''*'' else sr_query params);
          filters =
            tagFilter ''cuisine'' (sr_cuisine params)
            @ tagFilter ''city'' (sr_city params)
            @ tagFilter ''locality'' (sr_locality params)
            @ tagFilter ''type'' (sr_type params)
            @ (if numOptTruthy (sr_maxPrice params)
               then [Range ''priceFor2'' (Bound (Num 0)) (Bound (the (sr_maxPrice params)))] else [])
            @ (if numOptTruthy (sr_minRating params)
               then [Range ''rating'' (Bound (the (sr_minRating params))) PlusInf] else [])
      in ftSearch env
           \<lparr> q_text = searchQuery, q_filters = filters, q_knn = None, q_geofilter = None,
             q_sortby = None, q_limit = sr_limit params,
             q_return = [''name'', ''cuisine'', ''city'', ''locality'', ''type'', ''priceFor2'',
                         ''rating'', ''about''] \<rparr>)"

record vector_options =
  vo_limit :: jsnum
  vo_latitude :: "jsnum option"
  vo_longitude :: "jsnum option"
  vo_radius :: jsnum
  vo_cuisine :: "string option"
  vo_city :: "string option"
  vo_locality :: "string option"
  vo_type :: "string option"
  vo_maxPrice :: "jsnum option"
  vo_minRating :: "jsnum option"

definition repoVectorSearchRestaurants ::
  "('w, 'v) search_services \<Rightarrow> 'v \<Rightarrow> vector_options \<Rightarrow> 'w \<Rightarrow> (error + restaurant list) \<times> 'w" where
  "repoVectorSearchRestaurants env queryVector options =
     (let located = numOptTruthy (vo_latitude options) \<and> numOptTruthy (vo_longitude options);
          filters =
            (if located
             then [GeoRadius ''lngLat'' (the (vo_longitude options)) (the (vo_latitude options))
                     (vo_radius options)] else [])
            @ tagFilter ''cuisine'' (vo_cuisine options)
            @ tagFilter ''city'' (vo_city options)
            @ tagFilter ''locality'' (vo_locality options)
            @ tagFilter ''type'' (vo_type options)
            @ (if numOptTruthy (vo_maxPrice options)
               then [Range ''priceFor2'' (Bound (Num 0)) (Bound (the (vo_maxPrice options)))] else [])
            @ (if numOptTruthy (vo_minRating options)
               then [Range ''rating'' (Bound (the (vo_minRating options))) PlusInf] else [])
      in ftSearch env
           \<lparr> q_text = [], q_filters = filters,
             q_knn = Some (vo_limit options, queryVector), q_geofilter = None,
             q_sortby = Some (if located then ''score'' else ''rating''),
             q_limit = vo_limit options,
             q_return = [''name'', ''cuisine'', ''city'', ''locality'', ''type'', ''priceFor2'',
                         ''rating'', ''about'', ''knownFor'', ''score''] \<rparr>)"

definition repoGetRestaurantsByLocation ::
  "('w, 'v) search_services \<Rightarrow> jsnum \<Rightarrow> jsnum \<Rightarrow> jsnum \<Rightarrow> jsnum \<Rightarrow> 'w
     \<Rightarrow> (error + restaurant list) \<times> 'w" where
  "repoGetRestaurantsByLocation env latitude longitude radiusKm limit =
     (let radiusMeters = times radiusKm (Num 1000)
      in ftSearch env
           \<lparr> q_text = ''*'', q_filters = [], q_knn = None,
             q_geofilter = Some (longitude, latitude, radiusMeters),
             q_sortby = None, q_limit = limit,
             q_return = [''name'', ''cuisine'', ''city'', ''locality'', ''type'', ''priceFor2'',
                         ''rating'', ''address''] \<rparr>)"

section \<open>Restaurant service (restaurants/domain/restaurant-service.js)\<close>

definition isValidLatitude :: "jsnum \<Rightarrow> bool" where
  "isValidLatitude lat = (numLessEq (Num (- 90)) lat \<and> numLessEq lat (Num 90))"

definition isValidLongitude :: "jsnum \<Rightarrow> bool" where
  "isValidLongitude lng = (numLessEq (Num (- 180)) lng \<and> numLessEq lng (Num 180))"

definition getRestaurantsByLocation ::
  "('w, 'v) search_services \<Rightarrow> jsnum \<Rightarrow> jsnum \<Rightarrow> jsnum \<Rightarrow> jsnum \<Rightarrow> 'w
     \<Rightarrow> (error + restaurant list) \<times> 'w" where
  "getRestaurantsByLocation env latitude longitude radiusKm limit =
     (if \<not> isValidLatitude latitude \<or> \<not> isValidLongitude longitude
      then throw (AppError ''INVALID_COORDINATES'')
      else
        (let validRadius = mathMin (mathMax radiusKm (Num (1 / 10))) (Num 50);
             validLimit = mathMin (mathMax limit (Num 1)) (Num 50)
         in repoGetRestaurantsByLocation env latitude longitude validRadius validLimit))"

definition toLowerCase :: "string \<Rightarrow> string" where
  "toLowerCase str =
     map (\<lambda>c. if 65 \<le> (of_char c :: nat) \<and> (of_char c :: nat) \<le> 90
               then char_of (of_char c + 32 :: nat) else c) str"

text \<open>\<open>haystack.includes(needle)\<close>\<close>

fun includesStr :: "string \<Rightarrow> string \<Rightarrow> bool" where
  "includesStr [] needle = (needle = [])"
| "includesStr (c # rest) needle =
     (take (length needle) (c # rest) = needle \<or> includesStr rest needle)"

text \<open>
  \<open>xs.slice(0, n)\<close>: a negative \<open>n\<close> counts from the end, \<open>NaN\<close> is 0, a fraction is
  truncated towards 0.
\<close>

definition truncated :: "rat \<Rightarrow> int" where
  "truncated x = (if x < 0 then - \<lfloor>- x\<rfloor> else \<lfloor>x\<rfloor>)"

fun slice0 :: "'a list \<Rightarrow> jsnum \<Rightarrow> 'a list" where
  "slice0 xs NaN = []"
| "slice0 xs (Num n) =
     (if truncated n < 0 then take (nat (int (length xs) + truncated n)) xs
      else take (nat (truncated n)) xs)"

record nearby_options =
  no_latitude :: jsnum
  no_longitude :: jsnum
  no_radius :: jsnum
  no_cuisine :: "string option"
  no_city :: "string option"
  no_maxPrice :: "jsnum option"
  no_minRating :: "jsnum option"
  no_limit :: jsnum

definition nearbyKeeps :: "nearby_options \<Rightarrow> restaurant \<Rightarrow> bool" where
  "nearbyKeeps options restaurant =
     (if truthy (no_cuisine options)
         \<and> \<not> includesStr (toLowerCase (rest_cuisine restaurant)) (toLowerCase (the (no_cuisine options)))
      then False
      else if truthy (no_city options)
         \<and> toLowerCase (rest_city restaurant) \<noteq> toLowerCase (the (no_city options))
      then False
      else if numOptTruthy (no_maxPrice options)
         \<and> numLess (the (no_maxPrice options)) (Num (rest_priceFor2 restaurant))
      then False
      else if numOptTruthy (no_minRating options)
         \<and> numLess (Num (rest_rating restaurant)) (the (no_minRating options))
      then False
      else True)"

definition findNearbyRestaurants ::
  "('w, 'v) search_services \<Rightarrow> nearby_options \<Rightarrow> 'w \<Rightarrow> (error + restaurant list) \<times> 'w" where
  "findNearbyRestaurants env options =
     await (getRestaurantsByLocation env (no_latitude options) (no_longitude options)
              (no_radius options) (times (no_limit options) (Num 2)))
       (\<lambda>restaurants.
          resolve (slice0 (filter (nearbyKeeps options) restaurants) (no_limit options)))"

text \<open>
  The comparator of \<open>getPopularRestaurants\<close>, and \<open>Array.prototype.sort\<close> with it: a
  stable sort, here by insertion.
\<close>

definition byPopularity :: "restaurant \<Rightarrow> restaurant \<Rightarrow> rat" where
  "byPopularity a b =
     (if rest_rating b \<noteq> rest_rating a then rest_rating b - rest_rating a
      else orElse (rest_reviewCount b) 0 - orElse (rest_reviewCount a) 0)"

fun insertBy :: "('a \<Rightarrow> 'a \<Rightarrow> rat) \<Rightarrow> 'a \<Rightarrow> 'a list \<Rightarrow> 'a list" where
  "insertBy cmp x [] = [x]"
| "insertBy cmp x (y # ys) = (if cmp x y \<le> 0 then x # y # ys else y # insertBy cmp x ys)"

definition sortBy :: "('a \<Rightarrow> 'a \<Rightarrow> rat) \<Rightarrow> 'a list \<Rightarrow> 'a list" where
  "sortBy cmp xs = foldr (insertBy cmp) xs []"

record popular_options =
  po_city :: "string option"
  po_limit :: jsnum
  po_cuisine :: "string option"

definition getPopularRestaurants ::
  "('w, 'v) search_services \<Rightarrow> popular_options \<Rightarrow> 'w \<Rightarrow> (error + restaurant list) \<times> 'w" where
  "getPopularRestaurants env options =
     (let validLimit = mathMin (mathMax (po_limit options) (Num 1)) (Num 50);
          searchParams =
            \<lparr> sr_query = ''*'', sr_cuisine = po_cuisine options, sr_city = po_city options,
              sr_locality = None, sr_type = None, sr_maxPrice = None,
              sr_minRating = Some (Num 4), sr_limit = validLimit \<rparr>
      in await (repoSearchRestaurants env searchParams)
           (\<lambda>restaurants. resolve (sortBy byPopularity restaurants)))"

text \<open>
  \<open>vectorSearchRestaurants\<close>: the embedding is an array (the type \<open>'v\<close>), so the first
  check (\<open>!queryVector || !Array.isArray(queryVector)\<close>) passes; then the checks of the
  coordinates.
\<close>

definition vectorSearchRestaurants ::
  "('w, 'v) search_services \<Rightarrow> 'v \<Rightarrow> vector_options \<Rightarrow> 'w \<Rightarrow> (error + restaurant list) \<times> 'w" where
  "vectorSearchRestaurants env queryVector options =
     (if (numOptTruthy (vo_latitude options) \<and> \<not> numOptTruthy (vo_longitude options))
         \<or> (\<not> numOptTruthy (vo_latitude options) \<and> numOptTruthy (vo_longitude options))
      then throw (AppError ''INVALID_COORDINATES'')
      else if numOptTruthy (vo_latitude options) \<and> numOptTruthy (vo_longitude options)
         \<and> (\<not> isValidLatitude (the (vo_latitude options))
              \<or> \<not> isValidLongitude (the (vo_longitude options)))
      then throw (AppError ''INVALID_COORDINATES'')
      else repoVectorSearchRestaurants env queryVector options)"

section \<open>The unified search tool (semanticSearchRestaurantsTool in ai/agentic-restaurant-workflow/tools.js)\<close>

text \<open>The arguments, as the schema of the tool types them.\<close>

record search_args =
  arg_query :: string
  arg_latitude :: "string option"
  arg_longitude :: "string option"
  arg_radius :: "string option"
  arg_cuisine :: "string option"
  arg_city :: "string option"
  arg_locality :: "string option"
  arg_type :: "string option"
  arg_maxPrice :: "string option"
  arg_minRating :: "string option"
  arg_limit :: "string option"
  arg_useSemanticSearch :: "bool option"

text \<open>\<open>limit ? parseInt(limit) : 15\<close>\<close>

definition maxResultsOf :: "('w, 'v) search_services \<Rightarrow> search_args \<Rightarrow> jsnum" where
  "maxResultsOf env args =
     (if truthy (arg_limit args) then parseInt env (the (arg_limit args)) else Num 15)"

text \<open>\<open>query && useSemanticSearch\<close>, with the default \<open>useSemanticSearch = true\<close>.\<close>

definition semanticMode :: "search_args \<Rightarrow> bool" where
  "semanticMode args = (arg_query args \<noteq> [] \<and> orElse (arg_useSemanticSearch args) True)"

text \<open>\<open>latitude && longitude\<close>\<close>

definition locatedMode :: "search_args \<Rightarrow> bool" where
  "locatedMode args = (truthy (arg_latitude args) \<and> truthy (arg_longitude args))"

definition parsedOpt :: "(string \<Rightarrow> jsnum) \<Rightarrow> string option \<Rightarrow> jsnum option" where
  "parsedOpt parse x = (if truthy x then Some (parse (the x)) else None)"

text \<open>
  The semantic step and the location step, with the cuisine filter they are given: the
  tool runs each with \<open>cuisine\<close> first and, in the retry, without it.
\<close>

definition semanticStep ::
  "('w, 'v) search_services \<Rightarrow> search_args \<Rightarrow> string option \<Rightarrow> 'w
     \<Rightarrow> (error + restaurant list) \<times> 'w" where
  "semanticStep env args cuisine =
     await (generateEmbedding env (arg_query args))
       (\<lambda>embedding.
          vectorSearchRestaurants env embedding
            \<lparr> vo_limit = times (maxResultsOf env args) (Num 2),
              vo_latitude = parsedOpt (parseFloat env) (arg_latitude args),
              vo_longitude = parsedOpt (parseFloat env) (arg_longitude args),
              vo_radius =
                (if truthy (arg_radius args) then parseFloat env (the (arg_radius args))
                 else Num 15),
              vo_cuisine = cuisine,
              vo_city = arg_city args,
              vo_locality = arg_locality args,
              vo_type = arg_type args,
              vo_maxPrice = parsedOpt (parseInt env) (arg_maxPrice args),
              vo_minRating = parsedOpt (parseFloat env) (arg_minRating args) \<rparr>)"

definition locationStep ::
  "('w, 'v) search_services \<Rightarrow> search_args \<Rightarrow> string option \<Rightarrow> 'w
     \<Rightarrow> (error + restaurant list) \<times> 'w" where
  "locationStep env args cuisine =
     findNearbyRestaurants env
       \<lparr> no_latitude = parseFloat env (the (arg_latitude args)),
         no_longitude = parseFloat env (the (arg_longitude args)),
         no_radius =
           (if truthy (arg_radius args) then parseFloat env (the (arg_radius args)) else Num 15),
         no_cuisine = cuisine,
         no_city = arg_city args,
         no_maxPrice = parsedOpt (parseInt env) (arg_maxPrice args),
         no_minRating = parsedOpt (parseFloat env) (arg_minRating args),
         no_limit = maxResultsOf env args \<rparr>"

text \<open>"Primary search with all filters".\<close>

definition firstStep ::
  "('w, 'v) search_services \<Rightarrow> search_args \<Rightarrow> 'w \<Rightarrow> (error + restaurant list) \<times> 'w" where
  "firstStep env args =
     (if semanticMode args then semanticStep env args (arg_cuisine args)
      else if locatedMode args then locationStep env args (arg_cuisine args)
      else getPopularRestaurants env
             \<lparr> po_city = arg_city args, po_limit = maxResultsOf env args,
               po_cuisine = arg_cuisine args \<rparr>)"

text \<open>"Retry logic - remove cuisine filter if no results".\<close>

definition retryStep ::
  "('w, 'v) search_services \<Rightarrow> search_args \<Rightarrow> restaurant list \<Rightarrow> 'w
     \<Rightarrow> (error + restaurant list) \<times> 'w" where
  "retryStep env args restaurants =
     (if length restaurants = 0 \<and> truthy (arg_cuisine args) then
        (if semanticMode args then semanticStep env args None
         else if locatedMode args then locationStep env args None
         else resolve restaurants)
      else resolve restaurants)"

text \<open>"Final fallback to popular restaurants".\<close>

definition fallbackStep ::
  "('w, 'v) search_services \<Rightarrow> search_args \<Rightarrow> restaurant list \<Rightarrow> 'w
     \<Rightarrow> (error + restaurant list) \<times> 'w" where
  "fallbackStep env args restaurants =
     (if length restaurants = 0 then
        getPopularRestaurants env
          \<lparr> po_city = arg_city args, po_limit = maxResultsOf env args, po_cuisine = None \<rparr>
      else resolve restaurants)"

definition searchLadder ::
  "('w, 'v) search_services \<Rightarrow> search_args \<Rightarrow> 'w \<Rightarrow> (error + restaurant list) \<times> 'w" where
  "searchLadder env args =
     await (firstStep env args)
       (\<lambda>restaurants. await (retryStep env args restaurants) (fallbackStep env args))"

text \<open>
  The object the tool serialises: \<open>success\<close>, \<open>searchStrategy\<close>, \<open>totalFound\<close> and
  \<open>restaurants\<close> (the other fields repeat the arguments), or the error object of the
  \<open>catch\<close>. "Limit final results" is \<open>const finalRestaurants = result.restaurants\<close>.
\<close>

record search_found =
  found_success :: bool
  found_strategy :: string
  found_total :: nat
  found_restaurants :: "restaurant list"

datatype search_output = SearchFound search_found | SearchFailed

definition semanticSearchRestaurantsTool ::
  "('w, 'v) search_services \<Rightarrow> search_args \<Rightarrow> 'w \<Rightarrow> search_output \<times> 'w" where
  "semanticSearchRestaurantsTool env args w =
     (case searchLadder env args w of
        (Inl e, w') \<Rightarrow> (SearchFailed, w')
      | (Inr finalRestaurants, w') \<Rightarrow>
          (SearchFound
             \<lparr> found_success = (length finalRestaurants > 0),
               found_strategy =
                 (if semanticMode args then ''semantic''
                  else if locatedMode args then ''location'' else ''popular''),
               found_total = length finalRestaurants,
               found_restaurants = finalRestaurants \<rparr>, w'))"

section \<open>What the index is taken to answer\<close>

text \<open>
  \<open>sat f d\<close> says that document \<open>d\<close> satisfies filter \<open>f\<close>. An index over the documents
  \<open>docs\<close> answers a search for all documents (the text \<open>*\<close>, which every document
  matches) that has neither a \<open>KNN\<close> clause nor a \<open>GEOFILTER\<close> as follows: a \<open>LIMIT\<close>
  that is not a number is an error, and with room for at least one document the answer is
  empty only when no document satisfies all the filters. Nothing is said of a search for
  other words, which the index matches against its text fields.
\<close>

definition indexAnswers ::
  "('w, 'v) search_services \<Rightarrow> restaurant list \<Rightarrow> (ft_filter \<Rightarrow> restaurant \<Rightarrow> bool) \<Rightarrow> bool" where
  "indexAnswers env docs sat =
     (\<forall>q w. q_text q = ''*'' \<and> q_knn q = None \<and> q_geofilter q = None \<longrightarrow>
        (q_limit q = NaN \<longrightarrow> (\<exists>e. fst (ftSearch env q w) = Inl e))
        \<and> (numLessEq (Num 1) (q_limit q) \<and> fst (ftSearch env q w) = Inr []
             \<longrightarrow> \<not> (\<exists>d\<in>set docs. \<forall>f\<in>set (q_filters q). sat f d)))"

section \<open>A small index, for concrete runs\<close>

definition boundBelow :: "bound \<Rightarrow> rat \<Rightarrow> bool" where
  "boundBelow b x = (case b of Bound (Num lo) \<Rightarrow> lo \<le> x | Bound NaN \<Rightarrow> False | PlusInf \<Rightarrow> False)"

definition boundAbove :: "bound \<Rightarrow> rat \<Rightarrow> bool" where
  "boundAbove b x = (case b of Bound (Num hi) \<Rightarrow> x \<le> hi | Bound NaN \<Rightarrow> False | PlusInf \<Rightarrow> True)"

text \<open>
  Tags match by equality, ranges by the numbers; every document of the small index is
  taken to lie within every radius.
\<close>

fun satisfies :: "ft_filter \<Rightarrow> restaurant \<Rightarrow> bool" where
  "satisfies (Tag field v) d =
     (if field = ''cuisine'' then rest_cuisine d = v
      else if field = ''city'' then rest_city d = v
      else if field = ''locality'' then rest_locality d = v
      else if field = ''type'' then rest_type d = v
      else False)"
| "satisfies (Range field lo hi) d =
     (if field = ''priceFor2'' then boundBelow lo (rest_priceFor2 d) \<and> boundAbove hi (rest_priceFor2 d)
      else if field = ''rating'' then boundBelow lo (rest_rating d) \<and> boundAbove hi (rest_rating d)
      else False)"
| "satisfies (GeoRadius field lon lat radius) d = True"

text \<open>
  \<open>parseInt\<close> and \<open>parseFloat\<close>, for the small index, on the literals a limit, a price,
  a rating, a radius or a coordinate is written with: leading white space is skipped,
  a sign may come first, and what follows the number is ignored. \<open>parseInt\<close> reads the
  digits (hexadecimal ones after \<open>0x\<close>), \<open>parseFloat\<close> the digits, a fraction and an
  exponent; without a digit the answer is \<open>NaN\<close>. The word \<open>Infinity\<close>, which
  \<open>parseFloat\<close> reads as an infinite number, has no value among the numbers modelled and
  is \<open>NaN\<close> here.
\<close>

definition isDigit :: "char \<Rightarrow> bool" where
  "isDigit c = (48 \<le> (of_char c :: nat) \<and> (of_char c :: nat) \<le> 57)"

definition digitsValue :: "string \<Rightarrow> nat" where
  "digitsValue ds = foldl (\<lambda>n c. 10 * n + (of_char c - 48)) 0 ds"

definition isHexDigit :: "char \<Rightarrow> bool" where
  "isHexDigit c =
     (isDigit c \<or> (65 \<le> (of_char c :: nat) \<and> (of_char c :: nat) \<le> 70)
      \<or> (97 \<le> (of_char c :: nat) \<and> (of_char c :: nat) \<le> 102))"

definition hexValue :: "string \<Rightarrow> nat" where
  "hexValue ds =
     foldl (\<lambda>n c. 16 * n
              + (if isDigit c then of_char c - 48
                 else if (of_char c :: nat) \<le> 70 then of_char c - 55 else of_char c - 87)) 0 ds"

text \<open>The sign a literal starts with, and the literal after it.\<close>

definition signed :: "string \<Rightarrow> rat \<times> string" where
  "signed str =
     (case str of
        [] \<Rightarrow> (1, [])
      | c # rest \<Rightarrow>
          if c = CHR ''-'' then (- 1, rest) else if c = CHR ''+'' then (1, rest) else (1, str))"

definition jsParseInt :: "string \<Rightarrow> jsnum" where
  "jsParseInt str =
     (let (sign, body) = signed (dropWhile isSpace str)
      in if take 2 body = ''0x'' \<or> take 2 body = ''0X'' then
           (let ds = takeWhile isHexDigit (drop 2 body)
            in if ds = [] then NaN else Num (sign * of_nat (hexValue ds)))
         else
           (let ds = takeWhile isDigit body
            in if ds = [] then NaN else Num (sign * of_nat (digitsValue ds))))"

text \<open>The exponent part \<open>e[+-]digits\<close> at the head of a string, 0 when there is none.\<close>

definition exponentOf :: "string \<Rightarrow> int" where
  "exponentOf str =
     (case str of
        [] \<Rightarrow> 0
      | c # rest \<Rightarrow>
          if c = CHR ''e'' \<or> c = CHR ''E'' then
            (let (sign, body) = signed rest; ds = takeWhile isDigit body
             in if ds = [] then 0
                else if sign < 0 then - int (digitsValue ds) else int (digitsValue ds))
          else 0)"

definition scaled :: "rat \<Rightarrow> int \<Rightarrow> rat" where
  "scaled x e = (if e < 0 then x / 10 ^ nat (- e) else x * 10 ^ nat e)"

definition jsParseFloat :: "string \<Rightarrow> jsnum" where
  "jsParseFloat str =
     (let (sign, body) = signed (dropWhile isSpace str);
          whole = takeWhile isDigit body;
          afterWhole = dropWhile isDigit body;
          fraction = (if take 1 afterWhole = ''.'' then takeWhile isDigit (drop 1 afterWhole) else []);
          afterFraction =
            (if take 1 afterWhole = ''.'' then dropWhile isDigit (drop 1 afterWhole)
             else afterWhole)
      in if whole = [] \<and> fraction = [] then NaN
         else Num (sign * scaled (of_nat (digitsValue whole)
                                   + of_nat (digitsValue fraction) / 10 ^ length fraction)
                           (exponentOf afterFraction)))"

text \<open>
  The index that holds \<open>docs\<close> in this order and answers a search with the first
  \<open>LIMIT\<close> documents that satisfy the filters; the embedding of a text is the text. It
  reads the searches the tool sends: all documents (\<open>*\<close>) or a \<open>KNN\<close> clause. A search
  for other words, which it has no text fields to match against, is an error.
\<close>

definition listIndex :: "restaurant list \<Rightarrow> (unit, string) search_services" where
  "listIndex docs =
     \<lparr> parseInt = jsParseInt,
       parseFloat = jsParseFloat,
       generateEmbedding = (\<lambda>query w. (Inr query, w)),
       ftSearch = (\<lambda>q w.
         (if q_knn q = None \<and> q_text q \<noteq> ''*'' then Inl (Thrown ''TEXT'')
          else case q_limit q of
            NaN \<Rightarrow> Inl (Thrown ''LIMIT'')
          | Num n \<Rightarrow>
              if n < 0 then Inl (Thrown ''LIMIT'')
              else Inr (take (nat (truncated n))
                          (filter (\<lambda>d. \<forall>f\<in>set (q_filters q). satisfies f d) docs)), w)) \<rparr>"

definition dhaba :: restaurant where
  "dhaba =
     \<lparr> rest_id = ''dhaba-12ab34cd'', rest_name = ''Dhaba'', rest_cuisine = ''North Indian'',
       rest_address = ''Connaught Place'', rest_city = ''Delhi'',
       rest_locality = ''Connaught Place'', rest_type = ''Casual Dining'',
       rest_priceFor2 = 1200, rest_rating = 41 / 10, rest_reviewCount = None \<rparr>"

section \<open>A small database, for concrete runs\<close>

definition tonino :: restaurant where
  "tonino =
     \<lparr> rest_id = ''tonino-6fbacd23'', rest_name = ''Tonino'', rest_cuisine = ''Italian'',
       rest_address = ''Mehrauli Gurgaon Road'', rest_city = ''Delhi'',
       rest_locality = ''Mehrauli'', rest_type = ''Fine Dining'',
       rest_priceFor2 = 3000, rest_rating = 44 / 10, rest_reviewCount = None \<rparr>"

definition ashwin :: profile where
  "ashwin =
     \<lparr> profile_name = Some ''Ashwin'', profile_email = Some ''ashwin@example.com'',
       profile_phone = Some ''+91-9876543210'' \<rparr>"

definition emptyDatabase :: database where
  "emptyDatabase =
     \<lparr> redisUp = True, reservationHashes = Map.empty, sessionReservations = (\<lambda>sid. {}),
       restaurantDocs = [''tonino-6fbacd23'' \<mapsto> tonino],
       userProfiles = [''ashwin'' \<mapsto> ashwin] \<rparr>"

text \<open>Dinner at Tonino on 2026-01-01 at 19:00, booked by \<open>ashwin\<close>.\<close>

definition dinner :: reservation where
  "dinner =
     \<lparr> res_id = ''res_1'', res_sessionId = ''ashwin'', res_restaurantId = ''tonino-6fbacd23'',
       res_date = ''2026-01-01'', res_time = ''19:00'', res_guests = Num 2,
       res_customerName = ''Ashwin'', res_customerPhone = ''+91-9876543210'',
       res_customerEmail = Some ''ashwin@example.com'', res_specialRequests = None,
       res_status = ''confirmed'', res_createdAt = ''2025-12-20T10:00:00.000Z'',
       res_updatedAt = ''2025-12-20T10:00:00.000Z'', res_cancelledAt = None \<rparr>"

definition bookedDatabase :: database where
  "bookedDatabase =
     emptyDatabase\<lparr> reservationHashes := [''res_1'' \<mapsto> dinner],
                     sessionReservations := (\<lambda>sid. if sid = ''ashwin'' then {''res_1''} else {}) \<rparr>"

text \<open>The clock of that evening: 19:00 UTC is 1767294000000 ms after the epoch.\<close>

definition dinnerMillis :: "string \<Rightarrow> int option" where
  "dinnerMillis when = (if when = ''2026-01-01 19:00'' then Some 1767294000000 else None)"

section \<open>More inputs for concrete runs\<close>

text \<open>
  The query of the popular fallback: all documents, restricted by the city when one is
  given and by \<open>rating >= 4.0\<close>, with \<open>LIMIT\<close> the result limit clamped to 1..50.
\<close>

definition popularQuery :: "('w, 'v) search_services \<Rightarrow> search_args \<Rightarrow> 'v ft_query" where
  "popularQuery env args =
     \<lparr> q_text = ''*'',
       q_filters = tagFilter ''city'' (arg_city args) @ [Range ''rating'' (Bound (Num 4)) PlusInf],
       q_knn = None, q_geofilter = None, q_sortby = None,
       q_limit = mathMin (mathMax (maxResultsOf env args) (Num 1)) (Num 50),
       q_return = [''name'', ''cuisine'', ''city'', ''locality'', ''type'', ''priceFor2'',
                   ''rating'', ''about''] \<rparr>"

definition cafe :: restaurant where
  "cafe =
     \<lparr> rest_id = ''cafe-77aa88bb'', rest_name = ''Cafe'', rest_cuisine = ''Cafe'',
       rest_address = ''Hauz Khas'', rest_city = ''Delhi'',
       rest_locality = ''Hauz Khas'', rest_type = ''Quick Bites'',
       rest_priceFor2 = 600, rest_rating = 35 / 10, rest_reviewCount = None \<rparr>"

text \<open>A search for sushi in Delhi, with the cuisine filter \<open>Japanese\<close>.\<close>

definition sushiInDelhi :: search_args where
  "sushiInDelhi =
     \<lparr> arg_query = ''sushi'', arg_latitude = None, arg_longitude = None, arg_radius = None,
       arg_cuisine = Some ''Japanese'', arg_city = Some ''Delhi'', arg_locality = None,
       arg_type = None, arg_maxPrice = None, arg_minRating = None, arg_limit = None,
       arg_useSemanticSearch = None \<rparr>"

text \<open>A search by location only, with the cuisine filter \<open>Japanese\<close>.\<close>

definition japaneseNearby :: search_args where
  "japaneseNearby =
     \<lparr> arg_query = [], arg_latitude = Some ''28'', arg_longitude = Some ''77'', arg_radius = None,
       arg_cuisine = Some ''Japanese'', arg_city = None, arg_locality = None,
       arg_type = None, arg_maxPrice = None, arg_minRating = None, arg_limit = None,
       arg_useSemanticSearch = None \<rparr>"

section \<open>The lifetime ladder\<close>

lemma personal_some:
  "list_ex (\<lambda>tool. tool \<in> set ts) personalTools \<longleftrightarrow>
     ''make_reservation'' \<in> set ts \<or> ''get_user_reservations'' \<in> set ts
       \<or> ''cancel_reservation'' \<in> set ts"
  by (simp add: personalTools_def)

lemma static_some:
  "list_ex (\<lambda>tool. tool \<in> set ts) staticTools \<longleftrightarrow>
     ''get_popular_restaurants'' \<in> set ts \<or> ''direct_answer'' \<in> set ts"
  by (simp add: staticTools_def)

lemma search_some:
  "list_ex (\<lambda>tool. tool \<in> set ts) searchTools \<longleftrightarrow> ''semantic_search_restaurants'' \<in> set ts"
  by (simp add: searchTools_def)

lemma detail_some:
  "list_ex (\<lambda>tool. tool \<in> set ts) detailTools \<longleftrightarrow> ''get_restaurant_details'' \<in> set ts"
  by (simp add: detailTools_def)

text \<open>
  Claim C1. For every list of tool names the lifetime is given by the first matching rung:
  0 when a reservation tool was used; else 604800000 ms (7 days) for
  \<open>get_popular_restaurants\<close> or \<open>direct_answer\<close>; else 86400000 ms (24 hours) for
  \<open>semantic_search_restaurants\<close>; else 21600000 ms (6 hours) for
  \<open>get_restaurant_details\<close>; else 43200000 ms (12 hours). The list holding exactly
  \<open>semantic_search_restaurants\<close> gets 24 hours.
\<close>

theorem ttl_ladder:
  "determineToolBasedCacheTTL ts =
     (if ''make_reservation'' \<in> set ts \<or> ''get_user_reservations'' \<in> set ts
           \<or> ''cancel_reservation'' \<in> set ts then 0
      else if ''get_popular_restaurants'' \<in> set ts \<or> ''direct_answer'' \<in> set ts then 604800000
      else if ''semantic_search_restaurants'' \<in> set ts then 86400000
      else if ''get_restaurant_details'' \<in> set ts then 21600000
      else 43200000)
   \<and> determineToolBasedCacheTTL [''semantic_search_restaurants''] = 86400000"
proof
  show "determineToolBasedCacheTTL ts =
     (if ''make_reservation'' \<in> set ts \<or> ''get_user_reservations'' \<in> set ts
           \<or> ''cancel_reservation'' \<in> set ts then 0
      else if ''get_popular_restaurants'' \<in> set ts \<or> ''direct_answer'' \<in> set ts then 604800000
      else if ''semantic_search_restaurants'' \<in> set ts then 86400000
      else if ''get_restaurant_details'' \<in> set ts then 21600000
      else 43200000)"
    unfolding determineToolBasedCacheTTL_def personal_some static_some search_some detail_some
    by simp
  show "determineToolBasedCacheTTL [''semantic_search_restaurants''] = 86400000"
    unfolding determineToolBasedCacheTTL_def personal_some static_some search_some detail_some
    by simp
qed

theorem ttl_ladder_witness:
  "determineToolBasedCacheTTL [''get_restaurant_details'', ''direct_answer''] = 604800000
   \<and> determineToolBasedCacheTTL [''none''] = 43200000"
  using ttl_ladder [of "[''get_restaurant_details'', ''direct_answer'']"]
    ttl_ladder [of "[''none'']"]
  by simp

section \<open>The calls a turn makes\<close>

lemma cacheTraffic_append: "cacheTraffic (xs @ ys) = cacheTraffic xs @ cacheTraffic ys"
  by (simp add: cacheTraffic_def)

lemma cacheTraffic_single:
  "cacheTraffic [CacheSearch q] = [CacheSearch q]" "cacheTraffic [CacheSet p] = [CacheSet p]"
  "cacheTraffic [ModelInvoke m] = []" "cacheTraffic [ToolInvoke n a] = []"
  by (simp_all add: cacheTraffic_def isCacheEvent_def)

lemma callTool_events:
  "callTool env name args run = (reply, run') \<Longrightarrow> snd run' = snd run @ [ToolInvoke name args]"
  by (auto simp: callTool_def Let_def split: prod.splits)

lemma callModel_events:
  "callModel env msgs run = (reply, run') \<Longrightarrow> snd run' = snd run @ [ModelInvoke msgs]"
  by (auto simp: callModel_def Let_def split: prod.splits)

lemma invokeToolCall_traffic:
  "invokeToolCall env sid tc st = Inr st' \<Longrightarrow>
     cacheTraffic (snd (loopRun st')) = cacheTraffic (snd (loopRun st))"
  "invokeToolCall env sid tc st = Inl (e, run') \<Longrightarrow>
     cacheTraffic (snd run') = cacheTraffic (snd (loopRun st))"
  by (auto simp: invokeToolCall_def Let_def cacheTraffic_append cacheTraffic_single
      split: if_splits prod.splits sum.splits dest!: callTool_events)

lemma runToolCalls_traffic:
  "runToolCalls env sid tcs st = Inr st' \<Longrightarrow>
     cacheTraffic (snd (loopRun st')) = cacheTraffic (snd (loopRun st))"
  "runToolCalls env sid tcs st = Inl (e, run') \<Longrightarrow>
     cacheTraffic (snd run') = cacheTraffic (snd (loopRun st))"
proof (induction tcs arbitrary: st)
  case Nil
  { case 1 then show ?case by simp }
  { case 2 then show ?case by simp }
next
  case (Cons tc tcs)
  { case 1 then show ?case
      using Cons.IH(1) invokeToolCall_traffic(1)
      by (fastforce split: sum.splits) }
  { case 2 then show ?case
      using Cons.IH(2) invokeToolCall_traffic
      by (fastforce split: sum.splits) }
qed

lemma agentStep_traffic:
  "agentStep env sid st = Inr st' \<Longrightarrow>
     cacheTraffic (snd (loopRun st')) = cacheTraffic (snd (loopRun st))"
  "agentStep env sid st = Inl left \<Longrightarrow>
     cacheTraffic (snd (exitRun left)) = cacheTraffic (snd (loopRun st))"
  by (auto simp: agentStep_def Let_def cacheTraffic_append cacheTraffic_single
      split: if_splits prod.splits sum.splits
      dest!: callModel_events runToolCalls_traffic)

section \<open>The loop and its iterations\<close>

lemma iter_loop:
  "agentIter env sid k st = Inl left \<Longrightarrow> agentLoop env sid st = Some left"
proof (induction k arbitrary: st)
  case 0
  then show ?case by simp
next
  case (Suc k)
  show ?case
  proof (cases "agentStep env sid st")
    case (Inl a)
    with Suc.prems show ?thesis by (subst agentLoop.simps) simp
  next
    case (Inr st')
    with Suc.prems have "agentIter env sid k st' = Inl left" by simp
    then have "agentLoop env sid st' = Some left" by (rule Suc.IH)
    with Inr show ?thesis by (subst agentLoop.simps) simp
  qed
qed

lemma loop_iter:
  assumes "agentLoop env sid st = Some left"
  shows "\<exists>k. agentIter env sid k st = Inl left"
proof (rule agentLoop.raw_induct
    [where P = "\<lambda>env sid st left. \<exists>k. agentIter env sid k st = Inl left", OF _ assms])
  fix loop :: "('a, 'b) services \<Rightarrow> string \<Rightarrow> ('a, 'b) loop_state \<Rightarrow> ('a, 'b) loop_exit option"
    and env sid st left
  assume IH: "\<And>env sid st left. loop env sid st = Some left \<Longrightarrow> \<exists>k. agentIter env sid k st = Inl left"
    and step: "(case agentStep env sid st of Inl left \<Rightarrow> Some left | Inr st' \<Rightarrow> loop env sid st') = Some left"
  show "\<exists>k. agentIter env sid k st = Inl left"
  proof (cases "agentStep env sid st")
    case (Inl a)
    with step have "agentIter env sid (Suc 0) st = Inl left" by simp
    then show ?thesis ..
  next
    case (Inr st')
    with step have "loop env sid st' = Some left" by simp
    then obtain k where "agentIter env sid k st' = Inl left" using IH by blast
    with Inr have "agentIter env sid (Suc k) st = Inl left" by simp
    then show ?thesis ..
  qed
qed

lemma iter_split:
  "agentIter env sid k st = Inl left \<Longrightarrow>
     \<exists>j st'. agentIter env sid j st = Inr st' \<and> agentStep env sid st' = Inl left"
proof (induction k arbitrary: st)
  case 0
  then show ?case by simp
next
  case (Suc k)
  show ?case
  proof (cases "agentStep env sid st")
    case (Inl a)
    with Suc.prems have "agentIter env sid 0 st = Inr st \<and> agentStep env sid st = Inl left" by simp
    then show ?thesis by blast
  next
    case (Inr st1)
    with Suc.prems have "agentIter env sid k st1 = Inl left" by simp
    then obtain j st' where "agentIter env sid j st1 = Inr st'" "agentStep env sid st' = Inl left"
      using Suc.IH by blast
    with Inr have "agentIter env sid (Suc j) st = Inr st' \<and> agentStep env sid st' = Inl left" by simp
    then show ?thesis by blast
  qed
qed

lemma iter_join:
  "agentIter env sid j st = Inr st' \<Longrightarrow> agentStep env sid st' = Inl left \<Longrightarrow>
     agentIter env sid (Suc j) st = Inl left"
proof (induction j arbitrary: st)
  case 0
  then show ?case by simp
next
  case (Suc j)
  then show ?case by (cases "agentStep env sid st") auto
qed

lemma agentIter_traffic:
  "agentIter env sid k st = Inl left \<Longrightarrow>
     cacheTraffic (snd (exitRun left)) = cacheTraffic (snd (loopRun st))"
proof (induction k arbitrary: st)
  case 0
  then show ?case by simp
next
  case (Suc k)
  then show ?case
    by (cases "agentStep env sid st") (auto dest: agentStep_traffic)
qed

lemma agentLoop_traffic:
  "agentLoop env sid st = Some left \<Longrightarrow>
     cacheTraffic (snd (exitRun left)) = cacheTraffic (snd (loopRun st))"
  using loop_iter agentIter_traffic by blast

lemma invokeToolCall_extends:
  "invokeToolCall env sid tc st = Inr st' \<Longrightarrow>
     \<exists>more. snd (loopRun st') = snd (loopRun st) @ more"
  "invokeToolCall env sid tc st = Inl (e, run') \<Longrightarrow>
     \<exists>more. snd run' = snd (loopRun st) @ more"
  by (auto simp: invokeToolCall_def Let_def
      split: if_splits prod.splits sum.splits dest!: callTool_events)

lemma runToolCalls_extends:
  "runToolCalls env sid tcs st = Inr st' \<Longrightarrow>
     \<exists>more. snd (loopRun st') = snd (loopRun st) @ more"
  "runToolCalls env sid tcs st = Inl (e, run') \<Longrightarrow>
     \<exists>more. snd run' = snd (loopRun st) @ more"
proof (induction tcs arbitrary: st)
  case Nil
  { case 1 then show ?case by simp }
  { case 2 then show ?case by simp }
next
  case (Cons tc tcs)
  { case 1
    then obtain st1 where i: "invokeToolCall env sid tc st = Inr st1"
      and r: "runToolCalls env sid tcs st1 = Inr st'"
      by (auto split: sum.splits)
    from invokeToolCall_extends(1) [OF i] Cons.IH(1) [OF r] show ?case by auto }
  { case 2
    show ?case
    proof (cases "invokeToolCall env sid tc st")
      case (Inl failure)
      with 2 have "invokeToolCall env sid tc st = Inl (e, run')" by simp
      then show ?thesis by (rule invokeToolCall_extends(2))
    next
      case (Inr st1)
      with 2 have r: "runToolCalls env sid tcs st1 = Inl (e, run')" by simp
      from invokeToolCall_extends(1) [OF Inr] Cons.IH(2) [OF r] show ?thesis by auto
    qed }
qed

lemma agentStep_starts:
  "agentStep env sid st = Inr st' \<Longrightarrow>
     \<exists>more. snd (loopRun st') = snd (loopRun st) @ ModelInvoke (currentMessages st) # more"
  "agentStep env sid st = Inl left \<Longrightarrow>
     \<exists>more. snd (exitRun left) = snd (loopRun st) @ ModelInvoke (currentMessages st) # more"
proof -
  obtain reply run1 where c: "callModel env (currentMessages st) (loopRun st) = (reply, run1)"
    by (cases "callModel env (currentMessages st) (loopRun st)")
  then have e: "snd run1 = snd (loopRun st) @ [ModelInvoke (currentMessages st)]"
    by (rule callModel_events)
  { assume b: "agentStep env sid st = Inr st'"
    show "\<exists>more. snd (loopRun st') = snd (loopRun st) @ ModelInvoke (currentMessages st) # more"
    proof (cases reply)
      case (Inl err)
      with b c show ?thesis by (simp add: agentStep_def)
    next
      case (Inr response)
      with b c have n: "\<not> noToolCalls response"
        by (auto simp: agentStep_def Let_def split: if_splits)
      with b c Inr have
        r: "runToolCalls env sid (orElse (response_tool_calls response) [])
         (st\<lparr> currentMessages := currentMessages st
                  @ [AIMessage (response_content response) (orElse (response_tool_calls response) [])],
               loopRun := run1 \<rparr>) = Inr st'"
        by (auto simp: agentStep_def Let_def split: sum.splits)
      from runToolCalls_extends(1) [OF r] e show ?thesis by auto
    qed }
  { assume a: "agentStep env sid st = Inl left"
    show "\<exists>more. snd (exitRun left) = snd (loopRun st) @ ModelInvoke (currentMessages st) # more"
    proof (cases reply)
      case (Inl err)
      with a c e show ?thesis by (auto simp: agentStep_def)
    next
      case (Inr response)
      show ?thesis
      proof (cases "noToolCalls response")
        case True
        with a c e Inr show ?thesis by (auto simp: agentStep_def Let_def)
      next
        case False
        with a c Inr obtain err run2 where
          r: "runToolCalls env sid (orElse (response_tool_calls response) [])
         (st\<lparr> currentMessages := currentMessages st
                  @ [AIMessage (response_content response) (orElse (response_tool_calls response) [])],
               loopRun := run1 \<rparr>) = Inl (err, run2)" and l: "left = Caught err run2"
          by (auto simp: agentStep_def Let_def split: sum.splits)
        from runToolCalls_extends(2) [OF r] e l show ?thesis by auto
      qed
    qed }
qed

lemma agentIter_starts:
  "agentIter env sid k st = Inl left \<Longrightarrow>
     \<exists>more. snd (exitRun left) = snd (loopRun st) @ ModelInvoke (currentMessages st) # more"
proof (induction k arbitrary: st)
  case 0
  then show ?case by simp
next
  case (Suc k)
  show ?case
  proof (cases "agentStep env sid st")
    case (Inl a)
    with Suc.prems have "agentStep env sid st = Inl left" by simp
    then show ?thesis by (rule agentStep_starts(2))
  next
    case (Inr st1)
    with Suc.prems have "agentIter env sid k st1 = Inl left" by simp
    from Suc.IH [OF this] agentStep_starts(1) [OF Inr] show ?thesis by auto
  qed
qed

lemma agentLoop_starts:
  "agentLoop env sid st = Some left \<Longrightarrow>
     \<exists>more. snd (exitRun left) = snd (loopRun st) @ ModelInvoke (currentMessages st) # more"
  using loop_iter agentIter_starts by blast

section \<open>The nodes\<close>

lemma findFromSemanticCache_events:
  "findFromSemanticCache env query sid run = (reply, run') \<Longrightarrow>
     snd run' = snd run @ [CacheSearch \<lparr> search_prompt = query,
        search_strategies = [Exact, Semantic],
        search_attributes = (if truthy sid then Some [(''sessionId'', the sid)] else None) \<rparr>]"
  by (auto simp: findFromSemanticCache_def callLangCacheSearch_def Let_def
      split: prod.splits sum.splits)

lemma findFromSemanticCache_truthy:
  "findFromSemanticCache env query sid run = (Inr found, run') \<Longrightarrow> found \<noteq> None \<Longrightarrow> truthy found"
  by (auto simp: findFromSemanticCache_def callLangCacheSearch_def Let_def truthy_def
      split: prod.splits sum.splits list.splits if_splits)

lemma queryCacheCheck_events:
  "snd (snd (queryCacheCheck env state run)) =
     snd run @ [CacheSearch \<lparr> search_prompt = lastUserQuery (messages state),
        search_strategies = [Exact, Semantic], search_attributes = None \<rparr>]"
proof -
  obtain reply run' where r: "checkSemanticCache env (lastUserQuery (messages state)) None run = (reply, run')"
    by (cases "checkSemanticCache env (lastUserQuery (messages state)) None run")
  then have "snd run' = snd run @ [CacheSearch \<lparr> search_prompt = lastUserQuery (messages state),
        search_strategies = [Exact, Semantic], search_attributes = None \<rparr>]"
    using findFromSemanticCache_events [of env "lastUserQuery (messages state)" None run reply run']
    by (simp add: checkSemanticCache_def truthy_def)
  with r show ?thesis
    by (simp add: queryCacheCheck_def Let_def split: sum.splits)
qed

lemma queryCacheCheck_hit:
  assumes "checkSemanticCache env (lastUserQuery (messages state)) None run = (Inr (Some cached), run')"
  shows "queryCacheCheck env state run =
     (\<lparr> set_sessionId = Some (sessionId state),
        set_messages = Some (messages state @ [AIMessage cached []]),
        set_result = Some cached, set_cacheStatus = Some CacheHit,
        set_toolsUsed = None, set_foundRestaurants = None \<rparr>, run')"
proof -
  have "truthy (Some cached)"
    using assms findFromSemanticCache_truthy [of env _ None run "Some cached" run']
    by (simp add: checkSemanticCache_def)
  with assms show ?thesis by (simp add: queryCacheCheck_def Let_def)
qed

lemma queryCacheCheck_no_tools:
  "set_toolsUsed (fst (queryCacheCheck env state run)) = None"
  "set_sessionId (fst (queryCacheCheck env state run)) = Some (sessionId state)"
  by (auto simp: queryCacheCheck_def missUpdate_def Let_def split: prod.splits sum.splits)

lemma saveToSemanticCache_events:
  "saveToSemanticCache env query response ttl sid run = (reply, run') \<Longrightarrow>
     snd run' = snd run @ [CacheSet \<lparr> cache_prompt = query, cache_response = response,
        cache_ttlMillis = ttl,
        cache_attributes = (if truthy sid then Some [(''sessionId'', the sid)] else None) \<rparr>]"
  by (auto simp: saveToSemanticCache_def saveResponseInSemanticCache_def callLangCacheSet_def
      Let_def split: prod.splits sum.splits)

lemma process_keeps_toolsUsed:
  "toolsUsed (applyUpdate state (fst (processWorkOutputWithCaching env state run))) = toolsUsed state"
  by (cases "toolsUsed state")
    (auto simp: processWorkOutputWithCaching_def applyUpdate_def orKeep_def Let_def
      split: prod.splits sum.splits)

lemma process_personal:
  assumes "toolsUsed state = Some used" "list_ex (\<lambda>tool. tool \<in> set used) personalTools"
  shows "snd (processWorkOutputWithCaching env state run) = run"
    and "set_cacheStatus (fst (processWorkOutputWithCaching env state run)) = Some CacheSkip"
  using assms
  by (auto simp: processWorkOutputWithCaching_def determineToolBasedCacheTTL_def orElse_def Let_def)

lemma process_events:
  "\<exists>new. snd (snd (processWorkOutputWithCaching env state run)) = snd run @ new
     \<and> (\<forall>e\<in>set new. \<exists>p. e = CacheSet p
           \<and> cache_attributes p = (if sessionId state \<noteq> [] then Some [(''sessionId'', sessionId state)] else None))"
proof (cases "(case toolsUsed state of None \<Rightarrow> False | Some used \<Rightarrow> ''error'' \<in> set used)
    \<or> determineToolBasedCacheTTL (orElse (toolsUsed state) []) = 0")
  case True
  then have "snd (processWorkOutputWithCaching env state run) = run"
    by (auto simp: processWorkOutputWithCaching_def Let_def)
  then show ?thesis by simp
next
  case False
  obtain reply run' where r: "saveToSemanticCache env (lastUserQuery (messages state)) (result state)
      (determineToolBasedCacheTTL (orElse (toolsUsed state) [])) (Some (sessionId state)) run = (reply, run')"
    by (cases "saveToSemanticCache env (lastUserQuery (messages state)) (result state)
      (determineToolBasedCacheTTL (orElse (toolsUsed state) [])) (Some (sessionId state)) run")
  with False have "snd (processWorkOutputWithCaching env state run) = run'"
    by (auto simp: processWorkOutputWithCaching_def Let_def split: sum.splits)
  with saveToSemanticCache_events [OF r] show ?thesis
    by (simp add: truthy_def)
qed

lemma agent_is_loop:
  "restaurantDiscoveryAgent env state run =
     (case agentLoop env (sessionId state) (agentStart env state run) of
        None \<Rightarrow> None
      | Some left \<Rightarrow> Some (agentOutcome state left))"
  by (simp add: restaurantDiscoveryAgent_def agentStart_def Let_def split: prod.splits)

lemma agentOutcome_result:
  "\<exists>answer. set_result (fst (agentOutcome state left)) = Some answer"
  "\<exists>used. set_toolsUsed (fst (agentOutcome state left)) = Some used"
  "snd (agentOutcome state left) = exitRun left"
  by (cases left; simp)+

lemma process_status:
  "set_cacheStatus (fst (processWorkOutputWithCaching env state run))
     \<in> {Some CacheSkip, Some CacheSaved, Some CacheError}"
  "set_result (fst (processWorkOutputWithCaching env state run)) = result state"
  by (auto simp: processWorkOutputWithCaching_def Let_def split: prod.splits sum.splits)

lemma agentThenWrite_none:
  "agentThenWrite env state run = None \<longleftrightarrow>
     agentLoop env (sessionId state) (agentStart env state run) = None"
  by (auto simp: agentThenWrite_def agent_is_loop Let_def split: option.splits prod.splits)

lemma agentThenWrite_finished:
  assumes "agentThenWrite env state run = Some (final, run2)"
  shows "\<exists>more. snd run2 = snd run
            @ ModelInvoke (SystemMessage (fst (buildSystemPrompt env (sessionId state) (fst run)))
                            # messages state) # more"
    and "\<exists>answer. result final = Some answer"
    and "cacheStatus final \<in> {Some CacheSkip, Some CacheSaved, Some CacheError}"
    and "\<exists>used. toolsUsed final = Some used"
proof -
  from assms obtain left where l: "agentLoop env (sessionId state) (agentStart env state run) = Some left"
    by (auto simp: agentThenWrite_def agent_is_loop split: option.splits)
  obtain answered run1 where o: "agentOutcome state left = (answered, run1)"
    by (cases "agentOutcome state left")
  let ?s2 = "applyUpdate state answered"
  from assms l o have f: "final = applyUpdate ?s2 (fst (processWorkOutputWithCaching env ?s2 run1))"
    and r: "run2 = snd (processWorkOutputWithCaching env ?s2 run1)"
    by (auto simp: agentThenWrite_def agent_is_loop Let_def split: prod.splits)
  from agentOutcome_result [of state left] o obtain answer used where
    a: "set_result answered = Some answer" and u: "set_toolsUsed answered = Some used"
    and x: "run1 = exitRun left" by auto
  have res: "result ?s2 = Some answer" using a by (simp add: applyUpdate_def orKeep_def)
  have tu: "toolsUsed ?s2 = Some used" using u by (simp add: applyUpdate_def orKeep_def)
  from agentLoop_starts [OF l] x obtain more1 where
    "snd run1 = snd run
       @ ModelInvoke (SystemMessage (fst (buildSystemPrompt env (sessionId state) (fst run)))
                            # messages state) # more1"
    by (auto simp: agentStart_def)
  moreover from process_events [of env ?s2 run1] r obtain new where "snd run2 = snd run1 @ new"
    by auto
  ultimately show "\<exists>more. snd run2 = snd run
            @ ModelInvoke (SystemMessage (fst (buildSystemPrompt env (sessionId state) (fst run)))
                            # messages state) # more"
    by simp
  show "\<exists>answer. result final = Some answer"
    using f res process_status(2) [of env ?s2 run1] by (simp add: applyUpdate_def orKeep_def)
  show "cacheStatus final \<in> {Some CacheSkip, Some CacheSaved, Some CacheError}"
    using f process_status(1) [of env ?s2 run1] by (auto simp: applyUpdate_def orKeep_def)
  show "\<exists>used. toolsUsed final = Some used"
    using f tu process_keeps_toolsUsed [of ?s2 env run1] by simp
qed

lemma agent_traffic:
  assumes "restaurantDiscoveryAgent env state run = Some (answered, run')"
  shows "cacheTraffic (snd run') = cacheTraffic (snd run)"
proof -
  obtain prompt w' where b: "buildSystemPrompt env (sessionId state) (fst run) = (prompt, w')"
    by (cases "buildSystemPrompt env (sessionId state) (fst run)")
  let ?st = "\<lparr> currentMessages = SystemMessage prompt # messages state,
                 loopToolsUsed = [], loopFoundRestaurants = [], loopRun = (w', snd run) \<rparr>"
  from assms b obtain left where l: "agentLoop env (sessionId state) ?st = Some left"
    and a: "agentOutcome state left = (answered, run')"
    by (auto simp: restaurantDiscoveryAgent_def Let_def split: option.splits)
  from a have "exitRun left = run'" by (cases left) auto
  with agentLoop_traffic [OF l] show ?thesis by simp
qed

lemma agent_sets_toolsUsed:
  assumes "restaurantDiscoveryAgent env state run = Some (answered, run')"
  shows "set_toolsUsed answered \<noteq> None" "set_sessionId answered = Some (sessionId state)"
proof -
  obtain prompt w' where b: "buildSystemPrompt env (sessionId state) (fst run) = (prompt, w')"
    by (cases "buildSystemPrompt env (sessionId state) (fst run)")
  from assms b obtain left where a: "agentOutcome state left = (answered, run')"
    by (auto simp: restaurantDiscoveryAgent_def Let_def split: option.splits)
  then show "set_toolsUsed answered \<noteq> None" "set_sessionId answered = Some (sessionId state)"
    by (cases left; auto)+
qed

lemma workflow_cases:
  assumes "restaurantWorkflow env state run = Some (final, run')"
  obtains (hit) "final = applyUpdate state (fst (queryCacheCheck env state run))"
      "run' = snd (queryCacheCheck env state run)" "cacheStatus final = Some CacheHit"
  | (miss) answered run2 where
      "restaurantDiscoveryAgent env (applyUpdate state (fst (queryCacheCheck env state run)))
         (snd (queryCacheCheck env state run)) = Some (answered, run2)"
      "final = applyUpdate
         (applyUpdate (applyUpdate state (fst (queryCacheCheck env state run))) answered)
         (fst (processWorkOutputWithCaching env
            (applyUpdate (applyUpdate state (fst (queryCacheCheck env state run))) answered) run2))"
      "run' = snd (processWorkOutputWithCaching env
            (applyUpdate (applyUpdate state (fst (queryCacheCheck env state run))) answered) run2)"
proof -
  obtain checked run1 where q: "queryCacheCheck env state run = (checked, run1)"
    by (cases "queryCacheCheck env state run")
  show thesis
  proof (cases "cacheStatus (applyUpdate state checked) = Some CacheHit")
    case True
    with assms q have "final = applyUpdate state checked" "run' = run1"
      by (simp_all add: restaurantWorkflow_def)
    with True q show thesis by (intro hit) simp_all
  next
    case False
    with assms q have a: "agentThenWrite env (applyUpdate state checked) run1 = Some (final, run')"
      by (simp add: restaurantWorkflow_def)
    then obtain answered run2 where
      d: "restaurantDiscoveryAgent env (applyUpdate state checked) run1 = Some (answered, run2)"
      by (cases "restaurantDiscoveryAgent env (applyUpdate state checked) run1")
        (auto simp: agentThenWrite_def)
    obtain written run3 where
      w: "processWorkOutputWithCaching env (applyUpdate (applyUpdate state checked) answered) run2
            = (written, run3)"
      by (cases "processWorkOutputWithCaching env (applyUpdate (applyUpdate state checked) answered) run2")
    from a d w have "final = applyUpdate (applyUpdate (applyUpdate state checked) answered) written"
      "run' = run3"
      by (simp_all add: agentThenWrite_def)
    with q d w show thesis by (intro miss [of answered run2]) simp_all
  qed
qed

lemma workflow_traffic:
  assumes "restaurantWorkflow env state run = Some (final, run')"
  shows "\<exists>stores. cacheTraffic (snd run') = cacheTraffic (snd run)
             @ CacheSearch \<lparr> search_prompt = lastUserQuery (messages state),
                 search_strategies = [Exact, Semantic], search_attributes = None \<rparr> # stores
           \<and> (\<forall>e\<in>set stores. \<exists>p. e = CacheSet p
                 \<and> cache_attributes p =
                     (if sessionId state \<noteq> [] then Some [(''sessionId'', sessionId state)] else None))"
proof -
  let ?q = "CacheSearch \<lparr> search_prompt = lastUserQuery (messages state),
                 search_strategies = [Exact, Semantic], search_attributes = None \<rparr>"
  have ev: "cacheTraffic (snd (snd (queryCacheCheck env state run))) = cacheTraffic (snd run) @ [?q]"
    by (simp add: queryCacheCheck_events cacheTraffic_append cacheTraffic_single)
  from assms show ?thesis
  proof (cases rule: workflow_cases)
    case hit
    with ev have "cacheTraffic (snd run') = cacheTraffic (snd run) @ ?q # []" by simp
    then show ?thesis by (intro exI [of _ "[]"]) simp
  next
    case (miss answered run2)
    let ?s1 = "applyUpdate state (fst (queryCacheCheck env state run))"
    let ?s2 = "applyUpdate ?s1 answered"
    have sid: "sessionId ?s2 = sessionId state"
      using agent_sets_toolsUsed(2) [OF miss(1)]
      by (simp add: applyUpdate_def orElse_def queryCacheCheck_no_tools)
    obtain new where n: "snd run' = snd run2 @ new"
      and a: "\<forall>e\<in>set new. \<exists>p. e = CacheSet p
           \<and> cache_attributes p = (if sessionId state \<noteq> [] then Some [(''sessionId'', sessionId state)] else None)"
      using process_events [of env ?s2 run2] miss(3) unfolding sid by auto
    from a have "cacheTraffic new = new"
      by (auto simp: cacheTraffic_def isCacheEvent_def intro!: filter_True)
    with n have "cacheTraffic (snd run') = cacheTraffic (snd run) @ ?q # new"
      using agent_traffic [OF miss(1)] ev by (simp add: cacheTraffic_append)
    with a show ?thesis by blast
  qed
qed

lemma runWorkflow_traffic:
  assumes "runRestaurantAgentWorkflow env sid chatId message smart run = Some (reply, run')"
  shows "\<exists>new. cacheTraffic (snd run') = cacheTraffic (snd run) @ new
           \<and> (\<forall>e\<in>set new.
                 (\<exists>q. e = CacheSearch q \<and> search_attributes q = None)
                 \<or> (\<exists>p. e = CacheSet p
                      \<and> cache_attributes p = (if sid \<noteq> [] then Some [(''sessionId'', sid)] else None)))"
proof -
  obtain history w1 where h: "getOrCreateChatHistory env sid chatId (fst run) = (history, w1)"
    by (cases "getOrCreateChatHistory env sid chatId (fst run)")
  show ?thesis
  proof (cases history)
    case (Inl e)
    with assms h have "snd run' = snd run"
      by (auto simp: runRestaurantAgentWorkflow_def)
    then show ?thesis by (intro exI [of _ "[]"]) simp
  next
    case (Inr rawHistory)
    show ?thesis
    proof (cases "toMessages rawHistory")
      case (Inl e)
      with assms h Inr have "snd run' = snd run"
        by (auto simp: runRestaurantAgentWorkflow_def)
      then show ?thesis by (intro exI [of _ "[]"]) simp
    next
      case history: (Inr history)
      let ?s = "initialState sid (history @ [HumanMessage message]) :: 'b agent_state"
      from assms h Inr history obtain final run2 where
        w: "restaurantWorkflow env ?s (w1, snd run) = Some (final, run2)"
        by (auto simp: runRestaurantAgentWorkflow_def split: option.splits)
      with assms h Inr history have "snd run' = snd run2"
        by (auto simp: runRestaurantAgentWorkflow_def Let_def split: prod.splits sum.splits)
      moreover have "sessionId ?s = sid" by (simp add: initialState_def)
      ultimately show ?thesis
        using workflow_traffic [OF w] by fastforce
    qed
  qed
qed

section \<open>Scripted runs\<close>

lemma scripted_fields:
  "langCacheSearch (scriptedServices cached script) = (\<lambda>req w. (cached, w))"
  "langCacheSet (scriptedServices cached script) = (\<lambda>req w. (Inr (), w))"
  "modelInvoke (scriptedServices cached script) = (\<lambda>msgs w. (script w, Suc w))"
  "toolInvoke (scriptedServices cached script) = (\<lambda>name args w. (Inr ''{}'', w))"
  "parseToolResult (scriptedServices cached script) = (\<lambda>reply. OtherReply)"
  "buildSystemPrompt (scriptedServices cached script)
     = (\<lambda>sid w. (''You are a helpful restaurant discovery assistant.'', w))"
  "getOrCreateChatHistory (scriptedServices cached script) = (\<lambda>sid chatId w. (Inr [], w))"
  "saveChatMessage (scriptedServices cached script) = (\<lambda>sid chatId msg w. (Inr (), w))"
  by (simp_all add: scriptedServices_def)

lemmas loop_defs =
  agentStep_def callModel_def callTool_def invokeToolCall_def noToolCalls_def orElse_def
  afterCalls_def callsTool_def answers_def restaurantTools_def scripted_fields Let_def

lemma reservation_loop:
  "\<exists>run'. agentLoop (scriptedServices (Inr []) (afterCalls 1 ''get_user_reservations'' ''No reservations.''))
      ''ashwin''
      \<lparr> currentMessages = [SystemMessage ''You are a helpful restaurant discovery assistant.'',
                            HumanMessage ''show my reservations''],
        loopToolsUsed = [], loopFoundRestaurants = [], loopRun = (0, evs) \<rparr>
     = Some (Returned ''No reservations.'' [''get_user_reservations''] [] run')"
  by (rule exI, rule iter_loop [where k = "Suc (Suc 0)"]) (simp add: loop_defs)

lemma reservation_turn:
  "\<exists>final run'.
     restaurantWorkflow (scriptedServices (Inr []) (afterCalls 1 ''get_user_reservations'' ''No reservations.''))
       (initialState ''ashwin'' [HumanMessage ''show my reservations'']) (0, []) = Some (final, run')
     \<and> toolsUsed final = Some [''get_user_reservations'']"
proof -
  let ?env = "scriptedServices (Inr []) (afterCalls 1 ''get_user_reservations'' ''No reservations.'')
                :: (nat, string) services"
  let ?s0 = "initialState ''ashwin'' [HumanMessage ''show my reservations''] :: string agent_state"
  obtain run1 where q: "queryCacheCheck ?env ?s0 (0, []) = (missUpdate ?s0, run1)" "fst run1 = 0"
    by (simp add: queryCacheCheck_def checkSemanticCache_def findFromSemanticCache_def
        callLangCacheSearch_def scripted_fields truthy_def Let_def)
  let ?s1 = "applyUpdate ?s0 (missUpdate ?s0)"
  have s1: "sessionId ?s1 = ''ashwin''" "messages ?s1 = [HumanMessage ''show my reservations'']"
    "cacheStatus ?s1 = Some CacheMiss"
    by (simp_all add: applyUpdate_def missUpdate_def initialState_def orElse_def orKeep_def)
  obtain run2 where l: "agentLoop ?env ''ashwin''
      \<lparr> currentMessages = [SystemMessage ''You are a helpful restaurant discovery assistant.'',
                            HumanMessage ''show my reservations''],
        loopToolsUsed = [], loopFoundRestaurants = [], loopRun = (0, snd run1) \<rparr>
     = Some (Returned ''No reservations.'' [''get_user_reservations''] [] run2)"
    using reservation_loop by blast
  have a: "restaurantDiscoveryAgent ?env ?s1 run1
     = Some (agentOutcome ?s1 (Returned ''No reservations.'' [''get_user_reservations''] [] run2))"
    using l q(2) by (simp add: restaurantDiscoveryAgent_def scripted_fields s1)
  obtain answered where an: "agentOutcome ?s1 (Returned ''No reservations.'' [''get_user_reservations''] [] run2)
      = (answered, run2)" "set_toolsUsed answered = Some [''get_user_reservations'']"
    by simp
  obtain written run3 where p: "processWorkOutputWithCaching ?env (applyUpdate ?s1 answered) run2 = (written, run3)"
    by (cases "processWorkOutputWithCaching ?env (applyUpdate ?s1 answered) run2")
  have "restaurantWorkflow ?env ?s0 (0, []) = Some (applyUpdate (applyUpdate ?s1 answered) written, run3)"
    using q a an p by (simp add: restaurantWorkflow_def agentThenWrite_def s1)
  moreover have "toolsUsed (applyUpdate (applyUpdate ?s1 answered) written) = Some [''get_user_reservations'']"
    using process_keeps_toolsUsed [of "applyUpdate ?s1 answered" ?env run2] p an(2)
    by (simp add: applyUpdate_def orKeep_def)
  ultimately show ?thesis by blast
qed

lemma modelCalls_append: "modelCalls (xs @ ys) = modelCalls xs @ modelCalls ys"
  by (simp add: modelCalls_def)

lemma scripted_step_call:
  "w < n \<Longrightarrow>
   agentStep (scriptedServices cached (afterCalls n ''direct_answer'' text)) sid
     \<lparr> currentMessages = msgs, loopToolsUsed = used, loopFoundRestaurants = found, loopRun = (w, evs) \<rparr>
   = Inr \<lparr> currentMessages = msgs @ [AIMessage [] [\<lparr> call_name = ''direct_answer'', call_args = [], call_id = ''call'' \<rparr>],
                                     ToolMessage ''{}'' ''call''],
           loopToolsUsed = used @ [''direct_answer''], loopFoundRestaurants = found,
           loopRun = (Suc w, evs @ [ModelInvoke msgs, ToolInvoke ''direct_answer'' []]) \<rparr>"
  by (simp add: loop_defs)

lemma scripted_step_answer:
  "\<not> w < n \<Longrightarrow>
   agentStep (scriptedServices cached (afterCalls n ''direct_answer'' text)) sid
     \<lparr> currentMessages = msgs, loopToolsUsed = used, loopFoundRestaurants = found, loopRun = (w, evs) \<rparr>
   = Inl (Returned text used found (Suc w, evs @ [ModelInvoke msgs]))"
  by (simp add: loop_defs)

lemma scripted_iter:
  "n - w = d \<Longrightarrow> w \<le> n \<Longrightarrow>
   \<exists>evs'. agentIter (scriptedServices cached (afterCalls n ''direct_answer'' text)) sid (Suc d)
     \<lparr> currentMessages = msgs, loopToolsUsed = used, loopFoundRestaurants = found, loopRun = (w, evs) \<rparr>
   = Inl (Returned text (used @ replicate d ''direct_answer'') found (Suc n, evs'))
   \<and> length (modelCalls evs') = length (modelCalls evs) + d + 1"
proof (induction d arbitrary: w msgs used evs)
  case 0
  then have "\<not> w < n" "w = n" by simp_all
  then show ?case
    by (simp add: scripted_step_answer modelCalls_append) (simp add: modelCalls_def)
next
  case (Suc d)
  then have lt: "w < n" and d: "n - Suc w = d" and le: "Suc w \<le> n" by simp_all
  from Suc.IH [OF d le] obtain evs' where
    "agentIter (scriptedServices cached (afterCalls n ''direct_answer'' text)) sid (Suc d)
       \<lparr> currentMessages = msgs @ [AIMessage [] [\<lparr> call_name = ''direct_answer'', call_args = [], call_id = ''call'' \<rparr>],
                                     ToolMessage ''{}'' ''call''],
           loopToolsUsed = used @ [''direct_answer''], loopFoundRestaurants = found,
           loopRun = (Suc w, evs @ [ModelInvoke msgs, ToolInvoke ''direct_answer'' []]) \<rparr>
     = Inl (Returned text ((used @ [''direct_answer'']) @ replicate d ''direct_answer'') found (Suc n, evs'))"
    and "length (modelCalls evs') = length (modelCalls (evs @ [ModelInvoke msgs, ToolInvoke ''direct_answer'' []])) + d + 1"
    by blast
  then show ?case
    using scripted_step_call [OF lt, of cached "text" sid msgs used found evs]
    by (simp add: modelCalls_def replicate_app_Cons_same)
qed

lemma always_step:
  "agentStep (scriptedServices cached (\<lambda>i. Inr (callsTool ''direct_answer''))) sid
     \<lparr> currentMessages = msgs, loopToolsUsed = used, loopFoundRestaurants = found, loopRun = (w, evs) \<rparr>
   = Inr \<lparr> currentMessages = msgs @ [AIMessage [] [\<lparr> call_name = ''direct_answer'', call_args = [], call_id = ''call'' \<rparr>],
                                     ToolMessage ''{}'' ''call''],
           loopToolsUsed = used @ [''direct_answer''], loopFoundRestaurants = found,
           loopRun = (Suc w, evs @ [ModelInvoke msgs, ToolInvoke ''direct_answer'' []]) \<rparr>"
  by (simp add: loop_defs)

lemma always_iter:
  "\<exists>st'. agentIter (scriptedServices cached (\<lambda>i. Inr (callsTool ''direct_answer''))) sid k
     \<lparr> currentMessages = msgs, loopToolsUsed = used, loopFoundRestaurants = found, loopRun = (w, evs) \<rparr>
   = Inr st'"
proof (induction k arbitrary: msgs used w evs)
  case 0
  then show ?case by simp
next
  case (Suc k)
  then show ?case by (simp add: always_step)
qed

lemma always_diverges:
  "agentLoop (scriptedServices cached (\<lambda>i. Inr (callsTool ''direct_answer''))) sid
     \<lparr> currentMessages = msgs, loopToolsUsed = used, loopFoundRestaurants = found, loopRun = (w, evs) \<rparr>
   = None"
proof (rule ccontr)
  assume "agentLoop (scriptedServices cached (\<lambda>i. Inr (callsTool ''direct_answer''))) sid
     \<lparr> currentMessages = msgs, loopToolsUsed = used, loopFoundRestaurants = found, loopRun = (w, evs) \<rparr>
   \<noteq> None"
  then obtain left where "agentLoop (scriptedServices cached (\<lambda>i. Inr (callsTool ''direct_answer''))) sid
     \<lparr> currentMessages = msgs, loopToolsUsed = used, loopFoundRestaurants = found, loopRun = (w, evs) \<rparr>
   = Some left" by blast
  then obtain k where "agentIter (scriptedServices cached (\<lambda>i. Inr (callsTool ''direct_answer''))) sid k
     \<lparr> currentMessages = msgs, loopToolsUsed = used, loopFoundRestaurants = found, loopRun = (w, evs) \<rparr>
   = Inl left" using loop_iter by blast
  with always_iter [of cached sid k msgs used found w evs] show False by simp
qed

section \<open>A cache hit ends the turn\<close>

text \<open>
  Claim C4. When the lookup of the cache-check node returns a response, the workflow ends
  right after that node: the final state is the initial one with the cached response
  appended to the messages and set as the result, \<open>cacheStatus = hit\<close> and \<open>toolsUsed\<close>
  untouched; the only call made is the lookup, so no model call, no tool call and no cache
  store happen.
\<close>

theorem cache_hit_ends_turn:
  assumes "checkSemanticCache env (lastUserQuery (messages state)) None run = (Inr (Some cached), run')"
  shows "restaurantWorkflow env state run =
           Some (state\<lparr> messages := messages state @ [AIMessage cached []],
                        result := Some cached, cacheStatus := Some CacheHit \<rparr>, run')
         \<and> snd run' = snd run @ [CacheSearch \<lparr> search_prompt = lastUserQuery (messages state),
                search_strategies = [Exact, Semantic], search_attributes = None \<rparr>]"
proof
  show "restaurantWorkflow env state run =
           Some (state\<lparr> messages := messages state @ [AIMessage cached []],
                        result := Some cached, cacheStatus := Some CacheHit \<rparr>, run')"
    using queryCacheCheck_hit [OF assms]
    by (simp add: restaurantWorkflow_def applyUpdate_def orElse_def orKeep_def)
  show "snd run' = snd run @ [CacheSearch \<lparr> search_prompt = lastUserQuery (messages state),
                search_strategies = [Exact, Semantic], search_attributes = None \<rparr>]"
    using queryCacheCheck_events [of env state run] queryCacheCheck_hit [OF assms] by simp
qed

theorem cache_hit_ends_turn_witness:
  "restaurantWorkflow (scriptedServices (Inr [''Try Tonino.'']) (afterCalls 0 ''direct_answer'' ''done''))
      (initialState ''ashwin'' [HumanMessage ''italian food'']) (0, [])
     = Some (\<lparr> sessionId = ''ashwin'',
               messages = [HumanMessage ''italian food'', AIMessage ''Try Tonino.'' []],
               result = Some ''Try Tonino.'', cacheStatus = Some CacheHit,
               toolsUsed = None, foundRestaurants = None \<rparr>,
             (0, [CacheSearch \<lparr> search_prompt = ''italian food'',
                    search_strategies = [Exact, Semantic], search_attributes = None \<rparr>]))"
proof -
  let ?env = "scriptedServices (Inr [''Try Tonino.'']) (afterCalls 0 ''direct_answer'' ''done'')
                :: (nat, string) services"
  let ?q = "CacheSearch \<lparr> search_prompt = ''italian food'',
                    search_strategies = [Exact, Semantic], search_attributes = None \<rparr>"
  have q: "lastUserQuery (messages (initialState ''ashwin'' [HumanMessage ''italian food''])) = ''italian food''"
    by (simp add: lastUserQuery_def initialState_def)
  have h: "checkSemanticCache ?env
       (lastUserQuery (messages (initialState ''ashwin'' [HumanMessage ''italian food''])))
       None (0, []) = (Inr (Some ''Try Tonino.''), (0, [?q]))"
    unfolding q
    by (simp add: checkSemanticCache_def findFromSemanticCache_def callLangCacheSearch_def
        scripted_fields truthy_def)
  from cache_hit_ends_turn [OF h] show ?thesis
    by (simp add: initialState_def)
qed

section \<open>A failing cache is a miss\<close>

text \<open>
  Claim C7. When the cache lookup throws, the cache-check node returns
  \<open>cacheStatus = miss\<close> (with the session id) instead of failing, its only call being the
  lookup, and the workflow goes on with the agent and the cache-write node from that state.
  The turn does not end exactly when the agent's loop does not end. A turn that ends has
  called the model right after the failed lookup, with the system prompt and the messages of
  the state; it has a result; its \<open>cacheStatus\<close> is \<open>skip\<close>, \<open>saved\<close> or \<open>error\<close>, and
  its \<open>toolsUsed\<close> is set.
\<close>

theorem cache_error_is_miss:
  assumes "checkSemanticCache env (lastUserQuery (messages state)) None run = (Inl e, run')"
  shows "queryCacheCheck env state run = (missUpdate state, run')
         \<and> restaurantWorkflow env state run =
             agentThenWrite env (state\<lparr> cacheStatus := Some CacheMiss \<rparr>) run'
         \<and> snd run' = snd run @ [CacheSearch \<lparr> search_prompt = lastUserQuery (messages state),
               search_strategies = [Exact, Semantic], search_attributes = None \<rparr>]
         \<and> (restaurantWorkflow env state run = None
              \<longleftrightarrow> agentLoop env (sessionId state) (agentStart env state run') = None)
         \<and> (\<forall>final run2. restaurantWorkflow env state run = Some (final, run2) \<longrightarrow>
               (\<exists>more. snd run2 = snd run
                   @ CacheSearch \<lparr> search_prompt = lastUserQuery (messages state),
                       search_strategies = [Exact, Semantic], search_attributes = None \<rparr>
                   # ModelInvoke (SystemMessage (fst (buildSystemPrompt env (sessionId state) (fst run')))
                                   # messages state)
                   # more)
               \<and> (\<exists>answer. result final = Some answer)
               \<and> cacheStatus final \<in> {Some CacheSkip, Some CacheSaved, Some CacheError}
               \<and> (\<exists>used. toolsUsed final = Some used))"
proof -
  let ?s1 = "state\<lparr> cacheStatus := Some CacheMiss \<rparr>"
  have q: "queryCacheCheck env state run = (missUpdate state, run')"
    using assms by (simp add: queryCacheCheck_def Let_def)
  have "applyUpdate state (missUpdate state) = ?s1"
    by (simp add: applyUpdate_def missUpdate_def orElse_def orKeep_def)
  with q have w: "restaurantWorkflow env state run = agentThenWrite env ?s1 run'"
    by (simp add: restaurantWorkflow_def)
  have ev: "snd run' = snd run @ [CacheSearch \<lparr> search_prompt = lastUserQuery (messages state),
               search_strategies = [Exact, Semantic], search_attributes = None \<rparr>]"
    using queryCacheCheck_events [of env state run] q by simp
  have st: "agentStart env ?s1 run' = agentStart env state run'"
    by (simp add: agentStart_def)
  have n: "restaurantWorkflow env state run = None
              \<longleftrightarrow> agentLoop env (sessionId state) (agentStart env state run') = None"
    using agentThenWrite_none [of env ?s1 run'] by (simp add: w st)
  have f: "(\<exists>more. snd run2 = snd run
                   @ CacheSearch \<lparr> search_prompt = lastUserQuery (messages state),
                       search_strategies = [Exact, Semantic], search_attributes = None \<rparr>
                   # ModelInvoke (SystemMessage (fst (buildSystemPrompt env (sessionId state) (fst run')))
                                   # messages state)
                   # more)
               \<and> (\<exists>answer. result final = Some answer)
               \<and> cacheStatus final \<in> {Some CacheSkip, Some CacheSaved, Some CacheError}
               \<and> (\<exists>used. toolsUsed final = Some used)"
    if "restaurantWorkflow env state run = Some (final, run2)" for final run2
  proof -
    from that w have a: "agentThenWrite env ?s1 run' = Some (final, run2)" by simp
    from agentThenWrite_finished(1) [OF a] ev have
      "\<exists>more. snd run2 = snd run
                   @ CacheSearch \<lparr> search_prompt = lastUserQuery (messages state),
                       search_strategies = [Exact, Semantic], search_attributes = None \<rparr>
                   # ModelInvoke (SystemMessage (fst (buildSystemPrompt env (sessionId state) (fst run')))
                                   # messages state)
                   # more"
      by simp
    with agentThenWrite_finished(2-4) [OF a] show ?thesis by simp
  qed
  from q w ev n f show ?thesis by blast
qed

theorem cache_error_is_miss_witness:
  "queryCacheCheck (scriptedServices (Inl (Thrown ''cache unavailable'')) (afterCalls 0 ''direct_answer'' ''done''))
      (initialState ''ashwin'' [HumanMessage ''italian food'']) (0, [])
     = (missUpdate (initialState ''ashwin'' [HumanMessage ''italian food'']),
        (0, [CacheSearch \<lparr> search_prompt = ''italian food'',
                    search_strategies = [Exact, Semantic], search_attributes = None \<rparr>]))
   \<and> restaurantWorkflow (scriptedServices (Inl (Thrown ''cache unavailable'')) (afterCalls 0 ''direct_answer'' ''done''))
      (initialState ''ashwin'' [HumanMessage ''italian food'']) (0, [])
     = Some (\<lparr> sessionId = ''ashwin'',
               messages = [HumanMessage ''italian food'', AIMessage ''done'' []],
               result = Some ''done'', cacheStatus = Some CacheSaved,
               toolsUsed = Some [''none''], foundRestaurants = Some ([] :: string list) \<rparr>,
             (1, [CacheSearch \<lparr> search_prompt = ''italian food'',
                    search_strategies = [Exact, Semantic], search_attributes = None \<rparr>,
                  ModelInvoke [SystemMessage ''You are a helpful restaurant discovery assistant.'',
                               HumanMessage ''italian food''],
                  CacheSet \<lparr> cache_prompt = ''italian food'', cache_response = Some ''done'',
                    cache_ttlMillis = 43200000,
                    cache_attributes = Some [(''sessionId'', ''ashwin'')] \<rparr>]))"
proof -
  let ?env = "scriptedServices (Inl (Thrown ''cache unavailable'')) (afterCalls 0 ''direct_answer'' ''done'')
                :: (nat, string) services"
  let ?q = "CacheSearch \<lparr> search_prompt = ''italian food'',
                    search_strategies = [Exact, Semantic], search_attributes = None \<rparr>"
  let ?msgs = "[SystemMessage ''You are a helpful restaurant discovery assistant.'',
                HumanMessage ''italian food'']"
  let ?s0 = "initialState ''ashwin'' [HumanMessage ''italian food''] :: string agent_state"
  have q: "lastUserQuery (messages ?s0) = ''italian food''"
    by (simp add: lastUserQuery_def initialState_def)
  have h: "checkSemanticCache ?env (lastUserQuery (messages ?s0)) None (0, [])
             = (Inl (Thrown ''cache unavailable''), (0, [?q]))"
    unfolding q
    by (simp add: checkSemanticCache_def findFromSemanticCache_def callLangCacheSearch_def
        scripted_fields truthy_def)
  have l: "agentLoop ?env ''ashwin''
      \<lparr> currentMessages = ?msgs, loopToolsUsed = [], loopFoundRestaurants = [],
        loopRun = (0, [?q]) \<rparr>
     = Some (Returned ''done'' [] [] (Suc 0, [?q, ModelInvoke ?msgs]))"
    by (rule iter_loop [where k = "Suc 0"]) (simp add: loop_defs)
  have a: "restaurantDiscoveryAgent ?env (?s0\<lparr> cacheStatus := Some CacheMiss \<rparr>) (0, [?q])
     = Some (agentOutcome (?s0\<lparr> cacheStatus := Some CacheMiss \<rparr>)
               (Returned ''done'' [] [] (Suc 0, [?q, ModelInvoke ?msgs])))"
    using l by (simp add: restaurantDiscoveryAgent_def scripted_fields initialState_def)
  have t: "agentThenWrite ?env (?s0\<lparr> cacheStatus := Some CacheMiss \<rparr>) (0, [?q])
     = Some (\<lparr> sessionId = ''ashwin'',
               messages = [HumanMessage ''italian food'', AIMessage ''done'' []],
               result = Some ''done'', cacheStatus = Some CacheSaved,
               toolsUsed = Some [''none''], foundRestaurants = Some [] \<rparr>,
             (1, [?q, ModelInvoke ?msgs,
                  CacheSet \<lparr> cache_prompt = ''italian food'', cache_response = Some ''done'',
                    cache_ttlMillis = 43200000,
                    cache_attributes = Some [(''sessionId'', ''ashwin'')] \<rparr>]))"
    unfolding agentThenWrite_def a
    by (simp add: initialState_def applyUpdate_def orElse_def orKeep_def
        processWorkOutputWithCaching_def determineToolBasedCacheTTL_def personalTools_def
        staticTools_def searchTools_def detailTools_def lastUserQuery_def
        saveToSemanticCache_def saveResponseInSemanticCache_def callLangCacheSet_def
        scripted_fields truthy_def Let_def)
  from cache_error_is_miss [OF h] t show ?thesis by simp
qed

section \<open>Reservation turns are not cached\<close>

text \<open>
  Claim C3. When the tools used in a turn include \<open>make_reservation\<close>,
  \<open>get_user_reservations\<close> or \<open>cancel_reservation\<close>: the lifetime computed is 0; the
  cache-write node makes no call at all (the run it returns is the run it was given) and
  sets \<open>cacheStatus\<close> to \<open>skip\<close>; and a turn of the workflow that ends with such a
  \<open>toolsUsed\<close> ends with \<open>cacheStatus = skip\<close>, its only call to the cache service being
  the lookup of the cache-check node: nothing is stored.
\<close>

theorem reservation_turn_never_cached:
  assumes "''make_reservation'' \<in> set used \<or> ''get_user_reservations'' \<in> set used
             \<or> ''cancel_reservation'' \<in> set used"
  shows "determineToolBasedCacheTTL used = 0
     \<and> (\<forall>env state run. toolsUsed state = Some used \<longrightarrow>
           snd (processWorkOutputWithCaching env state run) = run
           \<and> set_cacheStatus (fst (processWorkOutputWithCaching env state run)) = Some CacheSkip)
     \<and> (\<forall>env sid msgs run final run'.
           restaurantWorkflow env (initialState sid msgs) run = Some (final, run')
           \<longrightarrow> toolsUsed final = Some used
           \<longrightarrow> cacheStatus final = Some CacheSkip
               \<and> cacheTraffic (snd run') = cacheTraffic (snd run)
                    @ [CacheSearch \<lparr> search_prompt = lastUserQuery msgs,
                         search_strategies = [Exact, Semantic], search_attributes = None \<rparr>])"
proof (intro conjI allI impI)
  have p: "list_ex (\<lambda>tool. tool \<in> set used) personalTools"
    using assms by (simp add: personalTools_def)
  then show "determineToolBasedCacheTTL used = 0"
    by (simp add: determineToolBasedCacheTTL_def)
  {
    fix env :: "('a, 'b) services" and state :: "'b agent_state" and run :: "'a run"
    assume "toolsUsed state = Some used"
    then show "snd (processWorkOutputWithCaching env state run) = run"
      and "set_cacheStatus (fst (processWorkOutputWithCaching env state run)) = Some CacheSkip"
      using p by (rule process_personal)+
  }
  fix env :: "('c, 'd) services" and sid msgs and run :: "'c run" and final run'
  assume w: "restaurantWorkflow env (initialState sid msgs) run = Some (final, run')"
    and u: "toolsUsed final = Some used"
  let ?q = "CacheSearch \<lparr> search_prompt = lastUserQuery msgs,
                 search_strategies = [Exact, Semantic], search_attributes = None \<rparr>"
  have ev: "snd (snd (queryCacheCheck env (initialState sid msgs) run)) = snd run @ [?q]"
    using queryCacheCheck_events [of env "initialState sid msgs" run]
    by (simp add: initialState_def)
  from w have "cacheStatus final = Some CacheSkip \<and> cacheTraffic (snd run') = cacheTraffic (snd run) @ [?q]"
  proof (cases rule: workflow_cases)
    case hit
    then have "toolsUsed final = None"
      by (simp add: applyUpdate_def orKeep_def queryCacheCheck_no_tools initialState_def)
    with u show ?thesis by simp
  next
    case (miss answered run2)
    let ?s1 = "applyUpdate (initialState sid msgs) (fst (queryCacheCheck env (initialState sid msgs) run))"
    let ?s2 = "applyUpdate ?s1 answered"
    have "toolsUsed ?s2 = Some used"
      using u miss(2) process_keeps_toolsUsed [of ?s2 env run2] by simp
    then have r: "snd (processWorkOutputWithCaching env ?s2 run2) = run2"
      and c: "set_cacheStatus (fst (processWorkOutputWithCaching env ?s2 run2)) = Some CacheSkip"
      using p by (rule process_personal)+
    have "cacheTraffic (snd run2) = cacheTraffic (snd run) @ [?q]"
      using agent_traffic [OF miss(1)] ev
      by (simp add: cacheTraffic_append cacheTraffic_single)
    moreover have "cacheStatus final = Some CacheSkip"
      using miss(2) c by (simp add: applyUpdate_def orKeep_def)
    ultimately show ?thesis using miss(3) r by simp
  qed
  then show "cacheStatus final = Some CacheSkip"
    and "cacheTraffic (snd run') = cacheTraffic (snd run) @ [?q]" by simp_all
qed

theorem reservation_turn_never_cached_witness:
  "determineToolBasedCacheTTL [''get_user_reservations''] = 0
   \<and> (\<exists>final run'.
     restaurantWorkflow (scriptedServices (Inr []) (afterCalls 1 ''get_user_reservations'' ''No reservations.''))
       (initialState ''ashwin'' [HumanMessage ''show my reservations'']) (0, []) = Some (final, run')
     \<and> toolsUsed final = Some [''get_user_reservations'']
     \<and> cacheStatus final = Some CacheSkip
     \<and> cacheTraffic (snd run') = [CacheSearch \<lparr> search_prompt = ''show my reservations'',
                         search_strategies = [Exact, Semantic], search_attributes = None \<rparr>])"
proof -
  have m: "''make_reservation'' \<in> set [''get_user_reservations'']
      \<or> ''get_user_reservations'' \<in> set [''get_user_reservations'']
      \<or> ''cancel_reservation'' \<in> set [''get_user_reservations'']" by simp
  note t = reservation_turn_never_cached [OF m]
  obtain final run' where
    w: "restaurantWorkflow (scriptedServices (Inr []) (afterCalls 1 ''get_user_reservations'' ''No reservations.''))
       (initialState ''ashwin'' [HumanMessage ''show my reservations'']) (0, []) = Some (final, run')"
    and u: "toolsUsed final = Some [''get_user_reservations'']"
    using reservation_turn by blast
  from t w u have "cacheStatus final = Some CacheSkip"
    and "cacheTraffic (snd run') = cacheTraffic (snd (0::nat, [])) @ [CacheSearch \<lparr> search_prompt = lastUserQuery [HumanMessage ''show my reservations''],
                         search_strategies = [Exact, Semantic], search_attributes = None \<rparr>]"
    by blast+
  then have "cacheStatus final = Some CacheSkip
     \<and> cacheTraffic (snd run') = [CacheSearch \<lparr> search_prompt = ''show my reservations'',
                         search_strategies = [Exact, Semantic], search_attributes = None \<rparr>]"
    by (simp add: cacheTraffic_def lastUserQuery_def)
  with t w u show ?thesis by blast
qed

section \<open>Lookups carry no session, stores do\<close>

lemma kyle_turn:
  "postChat (scriptedServices (Inr []) (afterCalls 0 ''direct_answer'' ''done''))
      (Some ''italian food'') (Some ''kyle'') None None (0, [])
     = Some (ChatReply \<lparr> isCachedResponse = False, reply_content = Some ''done'' \<rparr>,
             (1, [CacheSearch \<lparr> search_prompt = ''italian food'',
                    search_strategies = [Exact, Semantic], search_attributes = None \<rparr>,
                  ModelInvoke [SystemMessage ''You are a helpful restaurant discovery assistant.'',
                               HumanMessage ''italian food''],
                  CacheSet \<lparr> cache_prompt = ''italian food'', cache_response = Some ''done'',
                    cache_ttlMillis = 43200000,
                    cache_attributes = Some [(''sessionId'', ''kyle'')] \<rparr>]))"
proof -
  let ?env = "scriptedServices (Inr []) (afterCalls 0 ''direct_answer'' ''done'')
                :: (nat, string) services"
  let ?q = "CacheSearch \<lparr> search_prompt = ''italian food'',
                    search_strategies = [Exact, Semantic], search_attributes = None \<rparr>"
  let ?msgs = "[SystemMessage ''You are a helpful restaurant discovery assistant.'',
                HumanMessage ''italian food'']"
  let ?s0 = "initialState ''kyle'' [HumanMessage ''italian food''] :: string agent_state"
  let ?s1 = "?s0\<lparr> cacheStatus := Some CacheMiss \<rparr>"
  have c: "queryCacheCheck ?env ?s0 (0, []) = (missUpdate ?s0, (0, [?q]))"
    by (simp add: queryCacheCheck_def checkSemanticCache_def findFromSemanticCache_def
        callLangCacheSearch_def scripted_fields truthy_def lastUserQuery_def initialState_def)
  have u: "applyUpdate ?s0 (missUpdate ?s0) = ?s1"
    by (simp add: applyUpdate_def missUpdate_def orElse_def orKeep_def)
  have l: "agentLoop ?env ''kyle''
      \<lparr> currentMessages = ?msgs, loopToolsUsed = [], loopFoundRestaurants = [],
        loopRun = (0, [?q]) \<rparr>
     = Some (Returned ''done'' [] [] (Suc 0, [?q, ModelInvoke ?msgs]))"
    by (rule iter_loop [where k = "Suc 0"]) (simp add: loop_defs)
  have a: "restaurantDiscoveryAgent ?env ?s1 (0, [?q])
     = Some (agentOutcome ?s1 (Returned ''done'' [] [] (Suc 0, [?q, ModelInvoke ?msgs])))"
    using l by (simp add: restaurantDiscoveryAgent_def scripted_fields initialState_def)
  have t: "agentThenWrite ?env ?s1 (0, [?q])
     = Some (\<lparr> sessionId = ''kyle'',
               messages = [HumanMessage ''italian food'', AIMessage ''done'' []],
               result = Some ''done'', cacheStatus = Some CacheSaved,
               toolsUsed = Some [''none''], foundRestaurants = Some [] \<rparr>,
             (1, [?q, ModelInvoke ?msgs,
                  CacheSet \<lparr> cache_prompt = ''italian food'', cache_response = Some ''done'',
                    cache_ttlMillis = 43200000,
                    cache_attributes = Some [(''sessionId'', ''kyle'')] \<rparr>]))"
    unfolding agentThenWrite_def a
    by (simp add: initialState_def applyUpdate_def orElse_def orKeep_def
        processWorkOutputWithCaching_def determineToolBasedCacheTTL_def personalTools_def
        staticTools_def searchTools_def detailTools_def lastUserQuery_def
        saveToSemanticCache_def saveResponseInSemanticCache_def callLangCacheSet_def
        scripted_fields truthy_def Let_def)
  have w: "restaurantWorkflow ?env ?s0 (0, [])
     = Some (\<lparr> sessionId = ''kyle'',
               messages = [HumanMessage ''italian food'', AIMessage ''done'' []],
               result = Some ''done'', cacheStatus = Some CacheSaved,
               toolsUsed = Some [''none''], foundRestaurants = Some [] \<rparr>,
             (1, [?q, ModelInvoke ?msgs,
                  CacheSet \<lparr> cache_prompt = ''italian food'', cache_response = Some ''done'',
                    cache_ttlMillis = 43200000,
                    cache_attributes = Some [(''sessionId'', ''kyle'')] \<rparr>]))"
    unfolding restaurantWorkflow_def c using t by (simp add: u)
  show ?thesis
    using w
    by (simp add: postChat_def processRestaurantInquiry_def runRestaurantAgentWorkflow_def
        scripted_fields truthy_def orElse_def)
qed

text \<open>
  Claim C10. The cache-check node makes exactly one call, a lookup of the last user
  message with no attributes; so two states with the same messages, whatever their
  sessions, issue the same lookup request. Every call to the cache service made by a turn
  that \<open>POST /chat\<close> starts is either a lookup without attributes or a store whose
  attributes are \<open>{sessionId: <the request's session id>}\<close>.
\<close>

theorem lookup_unscoped_store_scoped:
  "snd (snd (queryCacheCheck env state run)) =
       snd run @ [CacheSearch \<lparr> search_prompt = lastUserQuery (messages state),
                    search_strategies = [Exact, Semantic], search_attributes = None \<rparr>]
   \<and> (\<forall>other run2. messages other = messages state \<longrightarrow>
         last (snd (snd (queryCacheCheck env other run2)))
           = last (snd (snd (queryCacheCheck env state run))))
   \<and> (\<forall>message sid chatId smart reply run'.
         postChat env message sid chatId smart run = Some (reply, run') \<longrightarrow>
         (\<exists>new. cacheTraffic (snd run') = cacheTraffic (snd run) @ new
            \<and> (\<forall>e\<in>set new.
                  (\<exists>q. e = CacheSearch q \<and> search_attributes q = None)
                  \<or> (\<exists>p. e = CacheSet p \<and> cache_attributes p = Some [(''sessionId'', the sid)]))))"
proof (intro conjI allI impI)
  show "snd (snd (queryCacheCheck env state run)) =
       snd run @ [CacheSearch \<lparr> search_prompt = lastUserQuery (messages state),
                    search_strategies = [Exact, Semantic], search_attributes = None \<rparr>]"
    by (rule queryCacheCheck_events)
next
  fix other :: "'b agent_state" and run2 :: "'a run"
  assume "messages other = messages state"
  then show "last (snd (snd (queryCacheCheck env other run2)))
           = last (snd (snd (queryCacheCheck env state run)))"
    by (simp add: queryCacheCheck_events)
next
  fix message sid chatId smart reply run'
  assume p: "postChat env message sid chatId smart run = Some (reply, run')"
  show "\<exists>new. cacheTraffic (snd run') = cacheTraffic (snd run) @ new
            \<and> (\<forall>e\<in>set new.
                  (\<exists>q. e = CacheSearch q \<and> search_attributes q = None)
                  \<or> (\<exists>p. e = CacheSet p \<and> cache_attributes p = Some [(''sessionId'', the sid)]))"
  proof (cases "\<not> truthy message \<or> \<not> truthy sid")
    case True
    with p have "run' = run" by (simp add: postChat_def)
    then show ?thesis by (intro exI [of _ "[]"]) simp
  next
    case False
    then have ne: "the sid \<noteq> []" by (cases sid) (auto simp: truthy_def)
    from p False obtain r where
      "runRestaurantAgentWorkflow env (the sid) (if truthy chatId then the chatId else ''default'')
         (the message) (orElse smart False) run = Some (r, run')"
      by (auto simp: postChat_def processRestaurantInquiry_def Let_def split: option.splits)
    from runWorkflow_traffic [OF this] ne show ?thesis by simp
  qed
qed

theorem lookup_unscoped_store_scoped_witness:
  "snd (snd (queryCacheCheck (scriptedServices (Inr []) (afterCalls 0 ''direct_answer'' ''done''))
        (initialState ''kyle'' [HumanMessage ''italian food'']) (0, [])))
     = [CacheSearch \<lparr> search_prompt = ''italian food'',
                    search_strategies = [Exact, Semantic], search_attributes = None \<rparr>]
   \<and> last (snd (snd (queryCacheCheck (scriptedServices (Inr []) (afterCalls 0 ''direct_answer'' ''done''))
        (initialState ''ashwin'' [HumanMessage ''italian food'']) (0, []))))
     = last (snd (snd (queryCacheCheck (scriptedServices (Inr []) (afterCalls 0 ''direct_answer'' ''done''))
        (initialState ''kyle'' [HumanMessage ''italian food'']) (0, []))))
   \<and> postChat (scriptedServices (Inr []) (afterCalls 0 ''direct_answer'' ''done''))
        (Some ''italian food'') (Some ''kyle'') None None (0, [])
     = Some (ChatReply \<lparr> isCachedResponse = False, reply_content = Some ''done'' \<rparr>,
             (1, [CacheSearch \<lparr> search_prompt = ''italian food'',
                    search_strategies = [Exact, Semantic], search_attributes = None \<rparr>,
                  ModelInvoke [SystemMessage ''You are a helpful restaurant discovery assistant.'',
                               HumanMessage ''italian food''],
                  CacheSet \<lparr> cache_prompt = ''italian food'', cache_response = Some ''done'',
                    cache_ttlMillis = 43200000,
                    cache_attributes = Some [(''sessionId'', ''kyle'')] \<rparr>]))
   \<and> cacheTraffic
        [CacheSearch \<lparr> search_prompt = ''italian food'',
           search_strategies = [Exact, Semantic], search_attributes = None \<rparr>,
         ModelInvoke [SystemMessage ''You are a helpful restaurant discovery assistant.'',
                      HumanMessage ''italian food''],
         CacheSet \<lparr> cache_prompt = ''italian food'', cache_response = Some ''done'',
           cache_ttlMillis = 43200000,
           cache_attributes = Some [(''sessionId'', ''kyle'')] \<rparr>]
     = [CacheSearch \<lparr> search_prompt = ''italian food'',
           search_strategies = [Exact, Semantic], search_attributes = None \<rparr>,
        CacheSet \<lparr> cache_prompt = ''italian food'', cache_response = Some ''done'',
           cache_ttlMillis = 43200000,
           cache_attributes = Some [(''sessionId'', ''kyle'')] \<rparr>]"
proof -
  let ?env = "scriptedServices (Inr []) (afterCalls 0 ''direct_answer'' ''done'') :: (nat, string) services"
  let ?kyle = "initialState ''kyle'' [HumanMessage ''italian food''] :: string agent_state"
  let ?ashwin = "initialState ''ashwin'' [HumanMessage ''italian food''] :: string agent_state"
  have m: "messages ?ashwin = messages ?kyle" by (simp add: initialState_def)
  have q: "lastUserQuery (messages ?kyle) = ''italian food''"
    by (simp add: lastUserQuery_def initialState_def)
  from lookup_unscoped_store_scoped [of ?env ?kyle "(0, [])"] m q kyle_turn show ?thesis
    by (simp add: cacheTraffic_def isCacheEvent_def)
qed

section \<open>How the agent loop ends\<close>

lemma agentStep_leaves:
  "agentStep env sid st = Inl left \<longleftrightarrow>
     (\<exists>e run'. callModel env (currentMessages st) (loopRun st) = (Inl e, run') \<and> left = Caught e run')
   \<or> (\<exists>response run'. callModel env (currentMessages st) (loopRun st) = (Inr response, run')
         \<and> noToolCalls response
         \<and> left = Returned (response_content response) (loopToolsUsed st) (loopFoundRestaurants st) run')
   \<or> (\<exists>response run' e run''. callModel env (currentMessages st) (loopRun st) = (Inr response, run')
         \<and> \<not> noToolCalls response
         \<and> runToolCalls env sid (orElse (response_tool_calls response) [])
              (st\<lparr> currentMessages := currentMessages st
                       @ [AIMessage (response_content response) (orElse (response_tool_calls response) [])],
                    loopRun := run' \<rparr>) = Inl (e, run'')
         \<and> left = Caught e run'')"
proof -
  obtain reply run' where c: "callModel env (currentMessages st) (loopRun st) = (reply, run')"
    by (cases "callModel env (currentMessages st) (loopRun st)")
  show ?thesis
  proof (cases reply)
    case (Inl e)
    with c show ?thesis by (auto simp: agentStep_def)
  next
    case (Inr response)
    with c show ?thesis
      by (auto simp: agentStep_def Let_def split: sum.splits)
  qed
qed

text \<open>
  Claim C9, as amended. The loop ends with \<open>left\<close> exactly when, after some number \<open>k\<close>
  of iterations that stayed in the loop, an iteration leaves it with \<open>left\<close>. An iteration
  leaves the loop in exactly three ways: the model's response has no tool calls (the loop
  returns that response's text), the model invocation throws, or a tool invocation throws
  (the \<open>catch\<close> handles both). There is no bound on the iterations: for every \<open>n\<close>, with
  the model that asks for a tool \<open>n\<close> times and then answers, the loop returns the answer
  after \<open>n + 1\<close> model invocations; and with the model that asks for a tool every time,
  the loop never ends. When the loop was left through the \<open>catch\<close>, the node answers its
  apology with \<open>toolsUsed = ["error"]\<close>. When the loop returned, the node's result is the
  text of that response, with the tools used (\<open>["none"]\<close> when there were none) and the
  restaurants found.
\<close>

theorem agent_loop_unbounded:
  "(agentLoop env sid st = Some left \<longleftrightarrow>
      (\<exists>k st'. agentIter env sid k st = Inr st' \<and> agentStep env sid st' = Inl left))
   \<and> (agentStep env sid st = Inl left \<longleftrightarrow>
       (\<exists>e run'. callModel env (currentMessages st) (loopRun st) = (Inl e, run') \<and> left = Caught e run')
     \<or> (\<exists>response run'. callModel env (currentMessages st) (loopRun st) = (Inr response, run')
           \<and> noToolCalls response
           \<and> left = Returned (response_content response) (loopToolsUsed st) (loopFoundRestaurants st) run')
     \<or> (\<exists>response run' e run''. callModel env (currentMessages st) (loopRun st) = (Inr response, run')
           \<and> \<not> noToolCalls response
           \<and> runToolCalls env sid (orElse (response_tool_calls response) [])
                (st\<lparr> currentMessages := currentMessages st
                         @ [AIMessage (response_content response) (orElse (response_tool_calls response) [])],
                      loopRun := run' \<rparr>) = Inl (e, run'')
           \<and> left = Caught e run''))
   \<and> (\<forall>n. \<exists>evs'. agentLoop (scriptedServices (Inr []) (afterCalls n ''direct_answer'' ''done'')) sid
            \<lparr> currentMessages = msgs, loopToolsUsed = [], loopFoundRestaurants = [],
              loopRun = (0, []) \<rparr>
          = Some (Returned ''done'' (replicate n ''direct_answer'') ([] :: string list) (Suc n, evs'))
        \<and> length (modelCalls evs') = n + 1)
   \<and> agentLoop (scriptedServices (Inr []) (\<lambda>i. Inr (callsTool ''direct_answer''))) sid
        \<lparr> currentMessages = msgs, loopToolsUsed = [], loopFoundRestaurants = ([] :: string list),
          loopRun = (0, []) \<rparr>
      = None
   \<and> set_result (fst (agentOutcome state (Caught e run))) = Some agentApology
   \<and> set_toolsUsed (fst (agentOutcome state (Caught e run))) = Some [''error'']
   \<and> set_result (fst (agentOutcome state (Returned answer used found run))) = Some answer
   \<and> set_toolsUsed (fst (agentOutcome state (Returned answer used found run)))
       = Some (if length used > 0 then used else [''none''])
   \<and> set_foundRestaurants (fst (agentOutcome state (Returned answer used found run))) = Some found"
proof (intro conjI allI)
  show "set_result (fst (agentOutcome state (Caught e run))) = Some agentApology"
    and "set_toolsUsed (fst (agentOutcome state (Caught e run))) = Some [''error'']"
    and "set_result (fst (agentOutcome state (Returned answer used found run))) = Some answer"
    and "set_toolsUsed (fst (agentOutcome state (Returned answer used found run)))
       = Some (if length used > 0 then used else [''none''])"
    and "set_foundRestaurants (fst (agentOutcome state (Returned answer used found run))) = Some found"
    by simp_all
  show "agentLoop (scriptedServices (Inr []) (\<lambda>i. Inr (callsTool ''direct_answer''))) sid
        \<lparr> currentMessages = msgs, loopToolsUsed = [], loopFoundRestaurants = ([] :: string list),
          loopRun = (0, []) \<rparr>
      = None"
    by (rule always_diverges)
  show "agentLoop env sid st = Some left \<longleftrightarrow>
      (\<exists>k st'. agentIter env sid k st = Inr st' \<and> agentStep env sid st' = Inl left)"
    using loop_iter iter_split iter_join iter_loop by blast
  show "agentStep env sid st = Inl left \<longleftrightarrow>
       (\<exists>e run'. callModel env (currentMessages st) (loopRun st) = (Inl e, run') \<and> left = Caught e run')
     \<or> (\<exists>response run'. callModel env (currentMessages st) (loopRun st) = (Inr response, run')
           \<and> noToolCalls response
           \<and> left = Returned (response_content response) (loopToolsUsed st) (loopFoundRestaurants st) run')
     \<or> (\<exists>response run' e run''. callModel env (currentMessages st) (loopRun st) = (Inr response, run')
           \<and> \<not> noToolCalls response
           \<and> runToolCalls env sid (orElse (response_tool_calls response) [])
                (st\<lparr> currentMessages := currentMessages st
                         @ [AIMessage (response_content response) (orElse (response_tool_calls response) [])],
                      loopRun := run' \<rparr>) = Inl (e, run'')
           \<and> left = Caught e run'')"
    by (rule agentStep_leaves)
  fix n
  obtain evs' where
    i: "agentIter (scriptedServices (Inr []) (afterCalls n ''direct_answer'' ''done'')) sid (Suc n)
     \<lparr> currentMessages = msgs, loopToolsUsed = [], loopFoundRestaurants = ([] :: string list), loopRun = (0, []) \<rparr>
      = Inl (Returned ''done'' ([] @ replicate n ''direct_answer'') [] (Suc n, evs'))"
    and l: "length (modelCalls evs') = length (modelCalls []) + n + 1"
    using scripted_iter [of n 0 n "Inr []" "''done''" sid msgs "[]" "[]" "[]"] by auto
  from iter_loop [OF i] l
  show "\<exists>evs'. agentLoop (scriptedServices (Inr []) (afterCalls n ''direct_answer'' ''done'')) sid
            \<lparr> currentMessages = msgs, loopToolsUsed = [], loopFoundRestaurants = [],
              loopRun = (0, []) \<rparr>
          = Some (Returned ''done'' (replicate n ''direct_answer'') ([] :: string list) (Suc n, evs'))
        \<and> length (modelCalls evs') = n + 1"
    by (auto simp: modelCalls_def)
qed

theorem agent_loop_unbounded_witness:
  "\<exists>evs'. agentLoop (scriptedServices (Inr []) (afterCalls 3 ''direct_answer'' ''done'')) ''ashwin''
            \<lparr> currentMessages = [HumanMessage ''hello''], loopToolsUsed = [],
              loopFoundRestaurants = [], loopRun = (0, []) \<rparr>
          = Some (Returned ''done'' (replicate 3 ''direct_answer'') ([] :: string list) (Suc 3, evs'))
        \<and> length (modelCalls evs') = 3 + 1"
  using agent_loop_unbounded [of "scriptedServices (Inr []) (afterCalls 0 ''direct_answer'' ''done'')"
      "''ashwin''" _ _ "[HumanMessage ''hello'']"]
  by blast

text \<open>
  Claim C9 as stated ("the loop terminates if and only if the model eventually returns a
  response with no tool calls") fails when the model is unavailable: the first invocation
  throws, the loop is left through the \<open>catch\<close>, and no response was ever returned.
\<close>

theorem loop_left_without_answer:
  "agentLoop (scriptedServices (Inr []) (\<lambda>i. Inl (Thrown ''model unavailable''))) ''ashwin''
      \<lparr> currentMessages = [SystemMessage ''prompt'', HumanMessage ''hello''], loopToolsUsed = [],
        loopFoundRestaurants = ([] :: string list), loopRun = (0, []) \<rparr>
     = Some (Caught (Thrown ''model unavailable'')
              (Suc 0, [ModelInvoke [SystemMessage ''prompt'', HumanMessage ''hello'']]))
   \<and> modelInvoke (scriptedServices (Inr []) (\<lambda>i. Inl (Thrown ''model unavailable'')) :: (nat, string) services)
        [SystemMessage ''prompt'', HumanMessage ''hello''] 0
     = (Inl (Thrown ''model unavailable''), Suc 0)"
proof
  show "agentLoop (scriptedServices (Inr []) (\<lambda>i. Inl (Thrown ''model unavailable''))) ''ashwin''
      \<lparr> currentMessages = [SystemMessage ''prompt'', HumanMessage ''hello''], loopToolsUsed = [],
        loopFoundRestaurants = ([] :: string list), loopRun = (0, []) \<rparr>
     = Some (Caught (Thrown ''model unavailable'')
              (Suc 0, [ModelInvoke [SystemMessage ''prompt'', HumanMessage ''hello'']]))"
    by (rule iter_loop [where k = "Suc 0"]) (simp add: loop_defs)
  show "modelInvoke (scriptedServices (Inr []) (\<lambda>i. Inl (Thrown ''model unavailable'')) :: (nat, string) services)
        [SystemMessage ''prompt'', HumanMessage ''hello''] 0
     = (Inl (Thrown ''model unavailable''), Suc 0)"
    by (simp add: scripted_fields)
qed

section \<open>Reservations: what create and cancel do\<close>

lemmas reservation_defs =
  createReservation_def getUserContactDetails_def getUserProfile_def repoCreateReservation_def
  getRestaurantById_def repoGetRestaurantById_def getReservationById_def
  repoGetReservationById_def updateReservationStatus_def updateReservation_def
  cancelReservation_def cancelReservationFirst_def emptyDatabase_def bookedDatabase_def
  dinner_def tonino_def ashwin_def dinnerMillis_def truthy_def summaryOf_def Let_def

text \<open>
  Claim C8 says that a reservation for a restaurant that does not exist fails with
  \<open>RESTAURANT_NOT_FOUND\<close> and leaves the store unchanged. \<open>createReservation\<close> looks the
  restaurant up after the repository has written the reservation: the call fails with
  \<open>RESTAURANT_NOT_FOUND\<close>, and the hash \<open>reservations:res_2\<close> and the entry in the
  session's set are there afterwards.
\<close>

theorem booking_persisted_before_lookup:
  "fst (createReservation ''res_2'' ''2025-12-21T09:00:00.000Z''
          \<lparr> req_sessionId = ''ashwin'', req_restaurantId = ''no-such-restaurant'',
            req_date = ''2026-01-02'', req_time = ''20:00'', req_guests = Num 4,
            req_specialRequests = None \<rparr> emptyDatabase)
     = Inl (AppError ''RESTAURANT_NOT_FOUND'')
   \<and> reservationHashes emptyDatabase ''res_2'' = None
   \<and> (\<exists>r. reservationHashes (snd (createReservation ''res_2'' ''2025-12-21T09:00:00.000Z''
          \<lparr> req_sessionId = ''ashwin'', req_restaurantId = ''no-such-restaurant'',
            req_date = ''2026-01-02'', req_time = ''20:00'', req_guests = Num 4,
            req_specialRequests = None \<rparr> emptyDatabase)) ''res_2'' = Some r
         \<and> res_restaurantId r = ''no-such-restaurant'' \<and> res_status r = ''confirmed'')
   \<and> ''res_2'' \<in> sessionReservations (snd (createReservation ''res_2'' ''2025-12-21T09:00:00.000Z''
          \<lparr> req_sessionId = ''ashwin'', req_restaurantId = ''no-such-restaurant'',
            req_date = ''2026-01-02'', req_time = ''20:00'', req_guests = Num 4,
            req_specialRequests = None \<rparr> emptyDatabase)) ''ashwin''"
  by (simp add: reservation_defs)

theorem booking_persisted_before_lookup_witness:
  "fst (createReservation ''res_2'' ''2025-12-21T09:00:00.000Z''
          \<lparr> req_sessionId = ''ashwin'', req_restaurantId = ''no-such-restaurant'',
            req_date = ''2026-01-02'', req_time = ''20:00'', req_guests = Num 4,
            req_specialRequests = None \<rparr> emptyDatabase)
     = Inl (AppError ''RESTAURANT_NOT_FOUND'')
   \<and> reservationHashes (snd (createReservation ''res_2'' ''2025-12-21T09:00:00.000Z''
          \<lparr> req_sessionId = ''ashwin'', req_restaurantId = ''no-such-restaurant'',
            req_date = ''2026-01-02'', req_time = ''20:00'', req_guests = Num 4,
            req_specialRequests = None \<rparr> emptyDatabase)) ''res_2'' \<noteq> None"
  using booking_persisted_before_lookup by auto

text \<open>
  Claim C5 says that a cancellation less than two hours before the reservation is rejected
  with \<open>CANCELLATION_TOO_LATE\<close>. The method the class ends up with has no such check: one
  hour before the dinner it cancels the reservation. The first definition, which the
  second replaces, rejects the same call.
\<close>

theorem late_cancellation_accepted:
  "cancelReservation ''2026-01-01T18:00:00.000Z'' ''res_1'' bookedDatabase
     = (Inr (dinner\<lparr> res_status := ''cancelled'', res_updatedAt := ''2026-01-01T18:00:00.000Z'' \<rparr>,
             summaryOf tonino),
        bookedDatabase\<lparr> reservationHashes :=
          [''res_1'' \<mapsto> dinner\<lparr> res_status := ''cancelled'',
                                  res_updatedAt := ''2026-01-01T18:00:00.000Z'' \<rparr>] \<rparr>)
   \<and> cancelReservationFirst dinnerMillis (1767294000000 - 60 * 60 * 1000)
        ''2026-01-01T18:00:00.000Z'' ''res_1'' (Some ''ashwin'') bookedDatabase
     = (Inl (AppError ''CANCELLATION_TOO_LATE''), bookedDatabase)"
  by (simp add: reservation_defs)

theorem late_cancellation_accepted_witness:
  "fst (cancelReservation ''2026-01-01T18:00:00.000Z'' ''res_1'' bookedDatabase)
     = Inr (dinner\<lparr> res_status := ''cancelled'', res_updatedAt := ''2026-01-01T18:00:00.000Z'' \<rparr>,
            summaryOf tonino)
   \<and> fst (cancelReservationFirst dinnerMillis (1767294000000 - 60 * 60 * 1000)
        ''2026-01-01T18:00:00.000Z'' ''res_1'' (Some ''ashwin'') bookedDatabase)
     = Inl (AppError ''CANCELLATION_TOO_LATE'')"
  using late_cancellation_accepted by simp

section \<open>The search tool: the size of the result\<close>

lemma listIndex_fields:
  "parseInt (listIndex docs) = jsParseInt"
  "parseFloat (listIndex docs) = jsParseFloat"
  "generateEmbedding (listIndex docs) = (\<lambda>query w. (Inr query, w))"
  "ftSearch (listIndex docs) = (\<lambda>q w.
         (if q_knn q = None \<and> q_text q \<noteq> ''*'' then Inl (Thrown ''TEXT'')
          else case q_limit q of
            NaN \<Rightarrow> Inl (Thrown ''LIMIT'')
          | Num n \<Rightarrow>
              if n < 0 then Inl (Thrown ''LIMIT'')
              else Inr (take (nat (truncated n))
                          (filter (\<lambda>d. \<forall>f\<in>set (q_filters q). satisfies f d) docs)), w))"
  by (simp_all add: listIndex_def)

lemmas parse_defs =
  jsParseInt_def jsParseFloat_def signed_def isSpace_def isDigit_def isHexDigit_def
  digitsValue_def hexValue_def exponentOf_def scaled_def

lemma parse_one: "jsParseInt ''1'' = Num 1"
  by (simp add: parse_defs)

lemmas search_defs =
  semanticSearchRestaurantsTool_def searchLadder_def firstStep_def retryStep_def fallbackStep_def
  semanticStep_def locationStep_def semanticMode_def locatedMode_def maxResultsOf_def
  parsedOpt_def vectorSearchRestaurants_def repoVectorSearchRestaurants_def
  getPopularRestaurants_def repoSearchRestaurants_def findNearbyRestaurants_def
  getRestaurantsByLocation_def repoGetRestaurantsByLocation_def
  await_def resolve_def throw_def numOptTruthy_def tagFilter_def truthy_def orElse_def
  listIndex_fields truncated_def Let_def

text \<open>
  Claim C2 says that the tool returns at most \<open>limit\<close> restaurants. On the semantic path
  the index is asked for \<open>2 * limit\<close> documents and the result is returned as it is: with
  two documents in the index, the query \<open>pizza\<close> and \<open>limit = 1\<close>, the tool returns both.
\<close>

theorem search_exceeds_limit:
  "semanticSearchRestaurantsTool (listIndex [dhaba, tonino])
     \<lparr> arg_query = ''pizza'', arg_latitude = None, arg_longitude = None, arg_radius = None,
       arg_cuisine = None, arg_city = None, arg_locality = None, arg_type = None,
       arg_maxPrice = None, arg_minRating = None, arg_limit = Some ''1'',
       arg_useSemanticSearch = None \<rparr> ()
   = (SearchFound \<lparr> found_success = True, found_strategy = ''semantic'', found_total = 2,
                    found_restaurants = [dhaba, tonino] \<rparr>, ())"
  by (simp add: search_defs parse_one)

theorem search_exceeds_limit_witness:
  "length (case fst (semanticSearchRestaurantsTool (listIndex [dhaba, tonino])
     \<lparr> arg_query = ''pizza'', arg_latitude = None, arg_longitude = None, arg_radius = None,
       arg_cuisine = None, arg_city = None, arg_locality = None, arg_type = None,
       arg_maxPrice = None, arg_minRating = None, arg_limit = Some ''1'',
       arg_useSemanticSearch = None \<rparr> ()) of
       SearchFound found \<Rightarrow> found_restaurants found | SearchFailed \<Rightarrow> []) = 2
   \<and> jsParseInt ''1'' = Num 1"
  using search_exceeds_limit by (simp add: parse_one)

section \<open>The search tool: the fallback ladder\<close>

lemma insertBy_nonempty: "insertBy cmp x ys \<noteq> []"
  by (cases ys) simp_all

lemma sortBy_empty: "sortBy cmp rs = [] \<longleftrightarrow> rs = []"
  by (cases rs) (simp_all add: sortBy_def insertBy_nonempty)

lemma await_Inr:
  "await call rest w = (Inr y, w') \<Longrightarrow>
     \<exists>x w1. call w = (Inr x, w1) \<and> rest x w1 = (Inr y, w')"
  by (auto simp: await_def split: prod.splits sum.splits)

lemma await_step: "call w = (Inr x, w1) \<Longrightarrow> await call rest w = rest x w1"
  by (simp add: await_def)

lemma popular_fallback_query:
  "getPopularRestaurants env
     \<lparr> po_city = arg_city args, po_limit = maxResultsOf env args, po_cuisine = None \<rparr>
   = await (ftSearch env (popularQuery env args))
       (\<lambda>restaurants. resolve (sortBy byPopularity restaurants))"
  by (simp add: getPopularRestaurants_def repoSearchRestaurants_def popularQuery_def
      tagFilter_def truthy_def numOptTruthy_def Let_def)

lemma valid_limit:
  "mathMin (mathMax m (Num 1)) (Num 50) = NaN
   \<or> numLessEq (Num 1) (mathMin (mathMax m (Num 1)) (Num 50))"
  by (cases m) simp_all

lemma popular_empty_means_none:
  assumes idx: "indexAnswers env docs sat"
    and empty: "getPopularRestaurants env
       \<lparr> po_city = arg_city args, po_limit = maxResultsOf env args, po_cuisine = None \<rparr> w
         = (Inr [], w')"
  shows "\<not> (\<exists>d\<in>set docs. (\<forall>f\<in>set (tagFilter ''city'' (arg_city args)). sat f d)
             \<and> sat (Range ''rating'' (Bound (Num 4)) PlusInf) d)"
proof -
  from empty obtain rs w1 where f: "ftSearch env (popularQuery env args) w = (Inr rs, w1)"
    and r: "resolve (sortBy byPopularity rs) w1 = (Inr [], w')"
    unfolding popular_fallback_query by (blast dest: await_Inr)
  from r have "rs = []" by (simp add: resolve_def sortBy_empty)
  with f have e: "fst (ftSearch env (popularQuery env args) w) = Inr []" by simp
  have k: "q_text (popularQuery env args) = ''*'' \<and> q_knn (popularQuery env args) = None
      \<and> q_geofilter (popularQuery env args) = None"
    by (simp add: popularQuery_def)
  have "q_limit (popularQuery env args) \<noteq> NaN"
    using idx k e unfolding indexAnswers_def by force
  then have "numLessEq (Num 1) (q_limit (popularQuery env args))"
    using valid_limit [of "maxResultsOf env args"] by (simp add: popularQuery_def)
  with idx k e have "\<not> (\<exists>d\<in>set docs. \<forall>f\<in>set (q_filters (popularQuery env args)). sat f d)"
    unfolding indexAnswers_def by blast
  then show ?thesis by (auto simp: popularQuery_def)
qed

lemma ladder_after_empty_first:
  assumes "firstStep env args w = (Inr [], w1)"
  shows "searchLadder env args w = await (retryStep env args []) (fallbackStep env args) w1"
  using assms by (simp add: searchLadder_def await_step)

lemma ladder_empty_end:
  assumes "searchLadder env args w = (Inr [], w')"
  shows "\<exists>w2. getPopularRestaurants env
       \<lparr> po_city = arg_city args, po_limit = maxResultsOf env args, po_cuisine = None \<rparr> w2
         = (Inr [], w')"
proof -
  from assms obtain r1 w1 where
    "await (retryStep env args r1) (fallbackStep env args) w1 = (Inr [], w')"
    unfolding searchLadder_def by (blast dest: await_Inr)
  then obtain r2 w2 where f: "fallbackStep env args r2 w2 = (Inr [], w')"
    by (blast dest: await_Inr)
  show ?thesis
  proof (cases "r2 = []")
    case True
    with f show ?thesis by (auto simp: fallbackStep_def)
  next
    case False
    with f show ?thesis by (simp add: fallbackStep_def resolve_def)
  qed
qed

lemma tool_found:
  "semanticSearchRestaurantsTool env args w = (SearchFound found, w') \<Longrightarrow>
     searchLadder env args w = (Inr (found_restaurants found), w')"
  by (auto simp: semanticSearchRestaurantsTool_def split: prod.splits sum.splits)

lemma listIndex_answers: "indexAnswers (listIndex docs) docs satisfies"
  unfolding indexAnswers_def
proof (intro allI impI conjI)
  fix q :: "string ft_query" and w :: unit
  assume "q_limit q = NaN"
  then show "\<exists>e. fst (ftSearch (listIndex docs) q w) = Inl e"
    by (simp add: listIndex_fields)
next
  fix q :: "string ft_query" and w :: unit
  assume t: "q_text q = ''*'' \<and> q_knn q = None \<and> q_geofilter q = None"
  assume a: "numLessEq (Num 1) (q_limit q) \<and> fst (ftSearch (listIndex docs) q w) = Inr []"
  then obtain n where n: "q_limit q = Num n" "1 \<le> n"
    by (cases "q_limit q") auto
  then have "1 \<le> truncated n" by (simp add: truncated_def le_floor_iff)
  then have k: "0 < nat (truncated n)" by simp
  from a n t have "take (nat (truncated n)) (filter (\<lambda>d. \<forall>f\<in>set (q_filters q). satisfies f d) docs) = []"
    by (simp add: listIndex_fields split: if_splits)
  with k have "filter (\<lambda>d. \<forall>f\<in>set (q_filters q). satisfies f d) docs = []"
    by (simp add: take_eq_Nil)
  then show "\<not> (\<exists>d\<in>set docs. \<forall>f\<in>set (q_filters q). satisfies f d)"
    by (simp add: filter_empty_conv)
qed

lemmas example_defs = search_defs sushiInDelhi_def dhaba_def tonino_def cafe_def
  boundBelow_def boundAbove_def sortBy_def byPopularity_def

lemma sushi_first: "firstStep (listIndex [dhaba, tonino]) sushiInDelhi () = (Inr [], ())"
  by (simp add: example_defs)

lemma sushi_retry: "await (semanticStep (listIndex [dhaba, tonino]) sushiInDelhi None)
     (fallbackStep (listIndex [dhaba, tonino]) sushiInDelhi) () = (Inr [dhaba, tonino], ())"
  by (simp add: example_defs)

lemma sushi_locality_first:
  "firstStep (listIndex [dhaba, tonino]) (sushiInDelhi\<lparr> arg_cuisine := None, arg_locality := Some ''Saket'' \<rparr>) ()
     = (Inr [], ())"
  by (simp add: example_defs)

lemma sushi_locality_retry:
  "retryStep (listIndex [dhaba, tonino]) (sushiInDelhi\<lparr> arg_cuisine := None, arg_locality := Some ''Saket'' \<rparr>) [] ()
     = (Inr [], ())"
  by (simp add: example_defs)

lemma sushi_locality_popular:
  "getPopularRestaurants (listIndex [dhaba, tonino])
      \<lparr> po_city = Some ''Delhi'', po_limit = Num 15, po_cuisine = None \<rparr> ()
     = (Inr [tonino, dhaba], ())"
  by (simp add: example_defs)

lemma cafe_tool:
  "semanticSearchRestaurantsTool (listIndex [cafe]) (sushiInDelhi\<lparr> arg_city := Some ''Mumbai'' \<rparr>) ()
     = (SearchFound \<lparr> found_success = False, found_strategy = ''semantic'', found_total = 0,
                      found_restaurants = [] \<rparr>, ())"
  by (simp add: example_defs)

lemmas nearby_defs = example_defs japaneseNearby_def nearbyKeeps_def toLowerCase_def
  isValidLatitude_def isValidLongitude_def parse_defs

lemma nearby_first:
  "firstStep (listIndex [dhaba, tonino]) japaneseNearby () = (Inr [], ())"
  by (simp add: nearby_defs)

lemma nearby_retry:
  "await (locationStep (listIndex [dhaba, tonino]) japaneseNearby None)
     (fallbackStep (listIndex [dhaba, tonino]) japaneseNearby) () = (Inr [dhaba, tonino], ())"
  by (simp add: nearby_defs)

lemma nearby_mode:
  "\<not> semanticMode japaneseNearby \<and> locatedMode japaneseNearby
     \<and> truthy (arg_cuisine japaneseNearby)"
  by (simp add: semanticMode_def locatedMode_def japaneseNearby_def truthy_def)

text \<open>
  Claim C6. The first step is the semantic step when a query is given and semantic search
  is on, else the step by location when both coordinates are given, else the popular query
  with the cuisine. When the first step returns no restaurants and a cuisine was given, the
  rest of the ladder is the same step (semantic, or by location) run without the cuisine,
  followed by the fallback. When the first step and the retry both return no restaurants,
  the result of the ladder is the result of the popular query restricted by the city only
  (\<open>popularQuery\<close>: the city, if any, and \<open>rating >= 4.0\<close>), sorted by rating.
  So when the tool answers with an empty list, the popular query itself returned none;
  and, for an index that answers a search for all documents as \<open>indexAnswers\<close> says, no
  document of the index has the city asked for (if any) and a rating of at least 4.0.
\<close>

theorem fallback_ladder:
  "(semanticMode args \<and> truthy (arg_cuisine args) \<and> firstStep env args w = (Inr [], w1)
      \<longrightarrow> searchLadder env args w
            = await (semanticStep env args None) (fallbackStep env args) w1)
   \<and> (\<not> semanticMode args \<and> locatedMode args \<and> truthy (arg_cuisine args)
        \<and> firstStep env args w = (Inr [], w1)
      \<longrightarrow> searchLadder env args w
            = await (locationStep env args None) (fallbackStep env args) w1)
   \<and> (firstStep env args w = (Inr [], w1) \<and> retryStep env args [] w1 = (Inr [], w2)
      \<longrightarrow> searchLadder env args w
            = getPopularRestaurants env
                \<lparr> po_city = arg_city args, po_limit = maxResultsOf env args, po_cuisine = None \<rparr> w2)
   \<and> getPopularRestaurants env
        \<lparr> po_city = arg_city args, po_limit = maxResultsOf env args, po_cuisine = None \<rparr>
      = await (ftSearch env (popularQuery env args))
          (\<lambda>restaurants. resolve (sortBy byPopularity restaurants))
   \<and> (semanticSearchRestaurantsTool env args w = (SearchFound found, w')
        \<and> found_restaurants found = []
      \<longrightarrow> (\<exists>w2. getPopularRestaurants env
                \<lparr> po_city = arg_city args, po_limit = maxResultsOf env args, po_cuisine = None \<rparr> w2
              = (Inr [], w')))
   \<and> (indexAnswers env docs sat
        \<and> semanticSearchRestaurantsTool env args w = (SearchFound found, w')
        \<and> found_restaurants found = []
      \<longrightarrow> \<not> (\<exists>d\<in>set docs. (\<forall>f\<in>set (tagFilter ''city'' (arg_city args)). sat f d)
                 \<and> sat (Range ''rating'' (Bound (Num 4)) PlusInf) d))
   \<and> (semanticMode args \<longrightarrow> firstStep env args = semanticStep env args (arg_cuisine args))
   \<and> (\<not> semanticMode args \<and> locatedMode args
      \<longrightarrow> firstStep env args = locationStep env args (arg_cuisine args))
   \<and> (\<not> semanticMode args \<and> \<not> locatedMode args
      \<longrightarrow> firstStep env args
            = getPopularRestaurants env
                \<lparr> po_city = arg_city args, po_limit = maxResultsOf env args,
                  po_cuisine = arg_cuisine args \<rparr>)"
proof (intro conjI impI)
  assume "semanticMode args \<and> truthy (arg_cuisine args) \<and> firstStep env args w = (Inr [], w1)"
  then show "searchLadder env args w = await (semanticStep env args None) (fallbackStep env args) w1"
    using ladder_after_empty_first [of env args w w1] by (simp add: retryStep_def)
next
  assume "\<not> semanticMode args \<and> locatedMode args \<and> truthy (arg_cuisine args)
        \<and> firstStep env args w = (Inr [], w1)"
  then show "searchLadder env args w = await (locationStep env args None) (fallbackStep env args) w1"
    using ladder_after_empty_first [of env args w w1] by (simp add: retryStep_def)
next
  assume "firstStep env args w = (Inr [], w1) \<and> retryStep env args [] w1 = (Inr [], w2)"
  then show "searchLadder env args w
            = getPopularRestaurants env
                \<lparr> po_city = arg_city args, po_limit = maxResultsOf env args, po_cuisine = None \<rparr> w2"
    using ladder_after_empty_first [of env args w w1]
    by (simp add: await_step fallbackStep_def)
next
  show "getPopularRestaurants env
        \<lparr> po_city = arg_city args, po_limit = maxResultsOf env args, po_cuisine = None \<rparr>
      = await (ftSearch env (popularQuery env args))
          (\<lambda>restaurants. resolve (sortBy byPopularity restaurants))"
    by (rule popular_fallback_query)
next
  assume a: "semanticSearchRestaurantsTool env args w = (SearchFound found, w')
        \<and> found_restaurants found = []"
  then have "searchLadder env args w = (Inr [], w')" using tool_found by fastforce
  then show "\<exists>w2. getPopularRestaurants env
                \<lparr> po_city = arg_city args, po_limit = maxResultsOf env args, po_cuisine = None \<rparr> w2
              = (Inr [], w')"
    by (rule ladder_empty_end)
next
  assume a: "indexAnswers env docs sat
        \<and> semanticSearchRestaurantsTool env args w = (SearchFound found, w')
        \<and> found_restaurants found = []"
  then have "searchLadder env args w = (Inr [], w')" using tool_found by fastforce
  then have "\<exists>w2. getPopularRestaurants env
                \<lparr> po_city = arg_city args, po_limit = maxResultsOf env args, po_cuisine = None \<rparr> w2
              = (Inr [], w')"
    by (rule ladder_empty_end)
  then obtain w2 where p: "getPopularRestaurants env
                \<lparr> po_city = arg_city args, po_limit = maxResultsOf env args, po_cuisine = None \<rparr> w2
              = (Inr [], w')" ..
  from a have idx: "indexAnswers env docs sat" by simp
  show "\<not> (\<exists>d\<in>set docs. (\<forall>f\<in>set (tagFilter ''city'' (arg_city args)). sat f d)
                 \<and> sat (Range ''rating'' (Bound (Num 4)) PlusInf) d)"
    by (rule popular_empty_means_none [OF idx p])
next
  assume "semanticMode args"
  then show "firstStep env args = semanticStep env args (arg_cuisine args)"
    by (simp add: firstStep_def)
next
  assume "\<not> semanticMode args \<and> locatedMode args"
  then show "firstStep env args = locationStep env args (arg_cuisine args)"
    by (simp add: firstStep_def)
next
  assume "\<not> semanticMode args \<and> \<not> locatedMode args"
  then show "firstStep env args
            = getPopularRestaurants env
                \<lparr> po_city = arg_city args, po_limit = maxResultsOf env args,
                  po_cuisine = arg_cuisine args \<rparr>"
    by (simp add: firstStep_def)
qed

theorem fallback_ladder_witness:
  "searchLadder (listIndex [dhaba, tonino]) sushiInDelhi () = (Inr [dhaba, tonino], ())
   \<and> firstStep (listIndex [dhaba, tonino]) japaneseNearby ()
       = locationStep (listIndex [dhaba, tonino]) japaneseNearby (Some ''Japanese'') ()
   \<and> firstStep (listIndex [dhaba, tonino]) japaneseNearby () = (Inr [], ())
   \<and> searchLadder (listIndex [dhaba, tonino]) japaneseNearby () = (Inr [dhaba, tonino], ())
   \<and> searchLadder (listIndex [dhaba, tonino])
        (sushiInDelhi\<lparr> arg_cuisine := None, arg_locality := Some ''Saket'' \<rparr>) ()
       = (Inr [tonino, dhaba], ())
   \<and> indexAnswers (listIndex [cafe]) [cafe] satisfies
   \<and> semanticSearchRestaurantsTool (listIndex [cafe]) (sushiInDelhi\<lparr> arg_city := Some ''Mumbai'' \<rparr>) ()
       = (SearchFound \<lparr> found_success = False, found_strategy = ''semantic'', found_total = 0,
                        found_restaurants = [] \<rparr>, ())
   \<and> \<not> (\<exists>d\<in>set [cafe]. (\<forall>f\<in>set (tagFilter ''city'' (Some ''Mumbai'')). satisfies f d)
            \<and> satisfies (Range ''rating'' (Bound (Num 4)) PlusInf) d)"
proof (intro conjI)
  have m: "semanticMode sushiInDelhi \<and> truthy (arg_cuisine sushiInDelhi)"
    by (simp add: semanticMode_def sushiInDelhi_def truthy_def orElse_def)
  from fallback_ladder [of sushiInDelhi "listIndex [dhaba, tonino]" "()" "()"] m sushi_first
  have "searchLadder (listIndex [dhaba, tonino]) sushiInDelhi ()
          = await (semanticStep (listIndex [dhaba, tonino]) sushiInDelhi None)
              (fallbackStep (listIndex [dhaba, tonino]) sushiInDelhi) ()"
    by blast
  then show "searchLadder (listIndex [dhaba, tonino]) sushiInDelhi () = (Inr [dhaba, tonino], ())"
    by (simp only: sushi_retry)
next
  have c: "arg_cuisine japaneseNearby = Some ''Japanese''" by (simp add: japaneseNearby_def)
  from fallback_ladder [of japaneseNearby "listIndex [dhaba, tonino]"] nearby_mode
  have "firstStep (listIndex [dhaba, tonino]) japaneseNearby
          = locationStep (listIndex [dhaba, tonino]) japaneseNearby (arg_cuisine japaneseNearby)"
    by blast
  then show "firstStep (listIndex [dhaba, tonino]) japaneseNearby ()
       = locationStep (listIndex [dhaba, tonino]) japaneseNearby (Some ''Japanese'') ()"
    unfolding c by simp
next
  show "firstStep (listIndex [dhaba, tonino]) japaneseNearby () = (Inr [], ())"
    by (rule nearby_first)
next
  from fallback_ladder [of japaneseNearby "listIndex [dhaba, tonino]" "()" "()"]
    nearby_mode nearby_first
  have "searchLadder (listIndex [dhaba, tonino]) japaneseNearby ()
          = await (locationStep (listIndex [dhaba, tonino]) japaneseNearby None)
              (fallbackStep (listIndex [dhaba, tonino]) japaneseNearby) ()"
    by blast
  then show "searchLadder (listIndex [dhaba, tonino]) japaneseNearby () = (Inr [dhaba, tonino], ())"
    by (simp only: nearby_retry)
next
  let ?args = "sushiInDelhi\<lparr> arg_cuisine := None, arg_locality := Some ''Saket'' \<rparr>"
  have c: "arg_city ?args = Some ''Delhi''" "maxResultsOf (listIndex [dhaba, tonino]) ?args = Num 15"
    by (simp_all add: sushiInDelhi_def maxResultsOf_def truthy_def)
  from fallback_ladder [of ?args "listIndex [dhaba, tonino]" "()" "()" "()"]
    sushi_locality_first sushi_locality_retry
  have "searchLadder (listIndex [dhaba, tonino]) ?args ()
          = getPopularRestaurants (listIndex [dhaba, tonino])
              \<lparr> po_city = arg_city ?args, po_limit = maxResultsOf (listIndex [dhaba, tonino]) ?args,
                po_cuisine = None \<rparr> ()"
    by blast
  then show "searchLadder (listIndex [dhaba, tonino]) ?args () = (Inr [tonino, dhaba], ())"
    unfolding c by (simp only: sushi_locality_popular)
next
  show "indexAnswers (listIndex [cafe]) [cafe] satisfies"
    by (rule listIndex_answers)
next
  show "semanticSearchRestaurantsTool (listIndex [cafe]) (sushiInDelhi\<lparr> arg_city := Some ''Mumbai'' \<rparr>) ()
       = (SearchFound \<lparr> found_success = False, found_strategy = ''semantic'', found_total = 0,
                        found_restaurants = [] \<rparr>, ())"
    by (rule cafe_tool)
next
  let ?args = "sushiInDelhi\<lparr> arg_city := Some ''Mumbai'' \<rparr>"
  have c: "arg_city ?args = Some ''Mumbai''" by simp
  have f: "found_restaurants \<lparr> found_success = False, found_strategy = ''semantic'', found_total = 0,
                      found_restaurants = [] \<rparr> = []" by simp
  from fallback_ladder [of ?args "listIndex [cafe]" "()" _ _
      "\<lparr> found_success = False, found_strategy = ''semantic'', found_total = 0, found_restaurants = [] \<rparr>"
      "()" "[cafe]" satisfies]
    listIndex_answers [of "[cafe]"] cafe_tool f
  have "\<not> (\<exists>d\<in>set [cafe]. (\<forall>f\<in>set (tagFilter ''city'' (arg_city ?args)). satisfies f d)
            \<and> satisfies (Range ''rating'' (Bound (Num 4)) PlusInf) d)"
    by blast
  then show "\<not> (\<exists>d\<in>set [cafe]. (\<forall>f\<in>set (tagFilter ''city'' (Some ''Mumbai'')). satisfies f d)
            \<and> satisfies (Range ''rating'' (Bound (Num 4)) PlusInf) d)"
    unfolding c .
qed

end
